theory Spec2Isabelle
  imports Complex_Main "HOL-Library.Multiset"
begin

section \<open>JavaScript values\<close>

text \<open>
  The build summary tracker of \<^verbatim>\<open>gulpfile.js\<close> stores numbers, strings and
  \<^verbatim>\<open>undefined\<close> in positional arrays. Numbers are modelled as exact rationals
  extended with \<^verbatim>\<open>NaN\<close> and the two infinities: the rounding of IEEE doubles
  and the sign of zero are outside the model (no operation of the tracker divides by a
  computed zero, so the sign of a zero is never observed).
\<close>

datatype jsnum = Finite rat | NaN | PosInf | NegInf

datatype jsval = JsUndefined | JsNumber jsnum | JsString string

text \<open>
  Functions the file calls but does not define are parameters of the model: the
  language's conversion of a string to a number and of a number to a string, and the
  \<^verbatim>\<open>pretty-bytes\<close> package (\<open>None\<close> when it throws).
\<close>

record builtins =
  str_to_number :: "string \<Rightarrow> jsnum"
  number_to_str :: "jsnum \<Rightarrow> string"
  prettyBytes :: "jsval \<Rightarrow> string option"

datatype error = TypeError

fun num_neg :: "jsnum \<Rightarrow> jsnum" where
  "num_neg (Finite a) = Finite (- a)"
| "num_neg NaN = NaN"
| "num_neg PosInf = NegInf"
| "num_neg NegInf = PosInf"

fun num_add :: "jsnum \<Rightarrow> jsnum \<Rightarrow> jsnum" where
  "num_add (Finite a) (Finite b) = Finite (a + b)"
| "num_add NaN _ = NaN"
| "num_add _ NaN = NaN"
| "num_add PosInf NegInf = NaN"
| "num_add NegInf PosInf = NaN"
| "num_add PosInf _ = PosInf"
| "num_add NegInf _ = NegInf"
| "num_add _ PosInf = PosInf"
| "num_add _ NegInf = NegInf"

definition num_sub :: "jsnum \<Rightarrow> jsnum \<Rightarrow> jsnum" where
  "num_sub a b = num_add a (num_neg b)"

fun num_mul :: "jsnum \<Rightarrow> jsnum \<Rightarrow> jsnum" where
  "num_mul (Finite a) (Finite b) = Finite (a * b)"
| "num_mul NaN _ = NaN"
| "num_mul _ NaN = NaN"
| "num_mul (Finite a) PosInf = (if a = 0 then NaN else if 0 < a then PosInf else NegInf)"
| "num_mul (Finite a) NegInf = (if a = 0 then NaN else if 0 < a then NegInf else PosInf)"
| "num_mul PosInf (Finite b) = (if b = 0 then NaN else if 0 < b then PosInf else NegInf)"
| "num_mul NegInf (Finite b) = (if b = 0 then NaN else if 0 < b then NegInf else PosInf)"
| "num_mul PosInf PosInf = PosInf"
| "num_mul PosInf NegInf = NegInf"
| "num_mul NegInf PosInf = NegInf"
| "num_mul NegInf NegInf = PosInf"

fun num_div :: "jsnum \<Rightarrow> jsnum \<Rightarrow> jsnum" where
  "num_div (Finite a) (Finite b) =
     (if b = 0 then (if a = 0 then NaN else if 0 < a then PosInf else NegInf)
      else Finite (a / b))"
| "num_div NaN _ = NaN"
| "num_div _ NaN = NaN"
| "num_div (Finite a) PosInf = Finite 0"
| "num_div (Finite a) NegInf = Finite 0"
| "num_div PosInf (Finite b) = (if 0 \<le> b then PosInf else NegInf)"
| "num_div NegInf (Finite b) = (if 0 \<le> b then NegInf else PosInf)"
| "num_div PosInf PosInf = NaN"
| "num_div PosInf NegInf = NaN"
| "num_div NegInf PosInf = NaN"
| "num_div NegInf NegInf = NaN"

text \<open>\<^verbatim>\<open>ToNumber\<close>, \<^verbatim>\<open>ToString\<close> and \<^verbatim>\<open>ToBoolean\<close>.\<close>

fun to_number :: "builtins \<Rightarrow> jsval \<Rightarrow> jsnum" where
  "to_number B JsUndefined = NaN"
| "to_number B (JsNumber n) = n"
| "to_number B (JsString s) = str_to_number B s"

fun to_string :: "builtins \<Rightarrow> jsval \<Rightarrow> string" where
  "to_string B JsUndefined = ''undefined''"
| "to_string B (JsNumber n) = number_to_str B n"
| "to_string B (JsString s) = s"

fun truthy :: "jsval \<Rightarrow> bool" where
  "truthy JsUndefined = False"
| "truthy (JsNumber (Finite a)) = (a \<noteq> 0)"
| "truthy (JsNumber NaN) = False"
| "truthy (JsNumber _) = True"
| "truthy (JsString s) = (s \<noteq> [])"

text \<open>The operators \<^verbatim>\<open>/\<close>, \<^verbatim>\<open>-\<close>, \<^verbatim>\<open>+\<close> (which concatenates as soon as one
  operand is a string), \<^verbatim>\<open>||\<close>, and \<^verbatim>\<open><\<close> against a number.\<close>

definition js_div :: "builtins \<Rightarrow> jsval \<Rightarrow> jsval \<Rightarrow> jsval" where
  "js_div B a b = JsNumber (num_div (to_number B a) (to_number B b))"

definition js_sub :: "builtins \<Rightarrow> jsval \<Rightarrow> jsval \<Rightarrow> jsnum" where
  "js_sub B a b = num_sub (to_number B a) (to_number B b)"

fun js_add :: "builtins \<Rightarrow> jsval \<Rightarrow> jsval \<Rightarrow> jsval" where
  "js_add B (JsString s) b = JsString (s @ to_string B b)"
| "js_add B a (JsString t) = JsString (to_string B a @ t)"
| "js_add B a b = JsNumber (num_add (to_number B a) (to_number B b))"

definition js_or :: "jsval \<Rightarrow> jsval \<Rightarrow> jsval" where
  "js_or a b = (if truthy a then a else b)"

fun num_lt :: "jsnum \<Rightarrow> rat \<Rightarrow> bool" where
  "num_lt (Finite a) c = (a < c)"
| "num_lt NegInf c = True"
| "num_lt _ c = False"

definition js_lt :: "builtins \<Rightarrow> jsval \<Rightarrow> rat \<Rightarrow> bool" where
  "js_lt B y c = num_lt (to_number B y) c"

subsection \<open>Sparse arrays\<close>

text \<open>
  An array is the list of its slots, \<open>None\<close> for a hole. Reading a hole or past the
  end gives \<^verbatim>\<open>undefined\<close>; writing past the end extends the array with holes.
\<close>

type_synonym jsarray = "jsval option list"

definition get_idx :: "jsarray \<Rightarrow> nat \<Rightarrow> jsval" where
  "get_idx xs i =
     (if i < length xs then (case xs ! i of None \<Rightarrow> JsUndefined | Some v \<Rightarrow> v)
      else JsUndefined)"

definition set_idx :: "jsarray \<Rightarrow> nat \<Rightarrow> jsval \<Rightarrow> jsarray" where
  "set_idx xs i v =
     (if i < length xs then xs[i := Some v]
      else xs @ replicate (i - length xs) None @ [Some v])"

subsection \<open>Strings\<close>

text \<open>\<^verbatim>\<open>s.split('.')\<close> and \<^verbatim>\<open>parts.join('.')\<close>.\<close>

fun split_dot :: "string \<Rightarrow> string list" where
  "split_dot [] = [[]]"
| "split_dot (c # cs) =
     (if c = CHR ''.'' then [] # split_dot cs
      else (case split_dot cs of [] \<Rightarrow> [[c]] | p # ps \<Rightarrow> (c # p) # ps))"

fun join_dot :: "string list \<Rightarrow> string" where
  "join_dot [] = []"
| "join_dot [p] = p"
| "join_dot (p # q # ps) = p @ ''.'' @ join_dot (q # ps)"

section \<open>The file tracker\<close>

text \<open>A measurement event, with the fields of \<^verbatim>\<open>data\<close> that the file reads.\<close>

record event =
  fileName :: string
  startSize :: jsval
  endSize :: jsval
  percent :: jsval

text \<open>\<^verbatim>\<open>data[field]\<close>, where \<open>ap\<close> is the \<^verbatim>\<open>all_percent\<close> property that
  \<^verbatim>\<open>trackFile\<close> adds to the event of a compression stage.\<close>

definition data_field :: "event \<Rightarrow> jsval \<Rightarrow> string \<Rightarrow> jsval" where
  "data_field d ap f =
     (if f = ''fileName'' then JsString (fileName d)
      else if f = ''startSize'' then startSize d
      else if f = ''endSize'' then endSize d
      else if f = ''percent'' then percent d
      else if f = ''all_percent'' then ap
      else JsUndefined)"

definition trackTable_cols :: "string list" where
  "trackTable_cols =
     [''file'', ''src'', ''src_percent'', ''uglify'', ''gzipFile'', ''gzip_percent'', ''gzip'',
      ''brotliFile'', ''brotli_percent'', ''brotli'', ''all_percent'', ''mapFile'', ''map'']"

definition gZipOptions_extension :: string where
  "gZipOptions_extension = ''gz''"

definition brotliOptions_extension :: string where
  "brotliOptions_extension = ''br''"

definition compressionExt :: "string list" where
  "compressionExt = [gZipOptions_extension, brotliOptions_extension]"

text \<open>
  Objects used as dictionaries (\<^verbatim>\<open>trackedFiles\<close>, a column mapping) are association
  lists in insertion order, which is the order \<^verbatim>\<open>for ... in\<close> visits their keys
  (keys that are canonical array indices, which JavaScript visits first, and the
  properties inherited from \<^verbatim>\<open>Object.prototype\<close> are outside the model).
\<close>

type_synonym 'v jsobject = "(string \<times> 'v) list"

fun obj_set :: "'v jsobject \<Rightarrow> string \<Rightarrow> 'v \<Rightarrow> 'v jsobject" where
  "obj_set [] k v = [(k, v)]"
| "obj_set ((k', v') # ps) k v = (if k' = k then (k, v) # ps else (k', v') # obj_set ps k v)"

type_synonym tracked = "jsarray jsobject"

text \<open>The inner loop of \<^verbatim>\<open>trackFile\<close>: the first index of \<^verbatim>\<open>trackTable.cols\<close>
  that holds the column name.\<close>

fun col_index :: "string list \<Rightarrow> string \<Rightarrow> nat \<Rightarrow> nat option" where
  "col_index [] col i = None"
| "col_index (c # cs) col i = (if c = col then Some i else col_index cs col (Suc i))"

text \<open>
  \<^verbatim>\<open>fileData[i - 1] = data[mapping[col]]\<close>. For \<open>i = 0\<close> (the column \<^verbatim>\<open>file\<close>) the
  assignment sets the property \<^verbatim>\<open>"-1"\<close>, which is no element of the array and which
  nothing reads: the slots are unchanged.
\<close>

definition write_col :: "event \<Rightarrow> jsval \<Rightarrow> string \<times> string \<Rightarrow> jsarray \<Rightarrow> jsarray" where
  "write_col d ap cf fileData =
     (case col_index trackTable_cols (fst cf) 0 of
        None \<Rightarrow> fileData
      | Some i \<Rightarrow> if i = 0 then fileData else set_idx fileData (i - 1) (data_field d ap (snd cf)))"

definition srcFileName :: "string \<Rightarrow> string" where
  "srcFileName name =
     (let fileNameParts = split_dot name;
          fileExt = last fileNameParts
      in if fileExt \<in> set (compressionExt @ [''map'']) then join_dot (butlast fileNameParts)
         else name)"

definition trackFile :: "builtins \<Rightarrow> event \<Rightarrow> string jsobject \<Rightarrow> tracked \<Rightarrow> tracked" where
  "trackFile B d mapping trackedFiles =
     (let fileExt = last (split_dot (fileName d));
          key = srcFileName (fileName d);
          fileData = (case map_of trackedFiles key of None \<Rightarrow> [] | Some fd \<Rightarrow> fd);
          ap = (if fileExt = gZipOptions_extension \<or> fileExt = brotliOptions_extension
                then js_div B (endSize d) (get_idx fileData 0) else JsUndefined);
          mapping' =
            (if fileExt = ''js'' then obj_set mapping ''all_percent'' ''percent''
             else if fileExt = ''map'' then [(''mapFile'', ''fileName''), (''map'', ''endSize'')]
             else if fileExt = gZipOptions_extension then
               [(''gzipFile'', ''fileName''), (''gzip_percent'', ''percent''),
                (''gzip'', ''endSize''), (''all_percent'', ''all_percent'')]
             else if fileExt = brotliOptions_extension then
               [(''brotliFile'', ''fileName''), (''brotli_percent'', ''percent''),
                (''brotli'', ''endSize''), (''all_percent'', ''all_percent'')]
             else mapping)
      in obj_set trackedFiles key (fold (write_col d ap) mapping' fileData))"

text \<open>The mapping the primary stages pass (\<^verbatim>\<open>task:concatJS\<close>, \<^verbatim>\<open>task:diffJS\<close>,
  \<^verbatim>\<open>task:sass\<close>).\<close>

definition primary_mapping :: "string jsobject" where
  "primary_mapping =
     [(''src'', ''startSize''), (''src_percent'', ''percent''), (''uglify'', ''endSize'')]"

text \<open>The events of a build pass reach \<^verbatim>\<open>trackFile\<close> one after the other, each with
  the mapping its stage passes.\<close>

definition trackFiles :: "builtins \<Rightarrow> (event \<times> string jsobject) list \<Rightarrow> tracked \<Rightarrow> tracked" where
  "trackFiles B es tf = fold (\<lambda>dm t. trackFile B (fst dm) (snd dm) t) es tf"

section \<open>The summary renderer\<close>

text \<open>The flags of \<^verbatim>\<open>CONF\<close> that \<^verbatim>\<open>printJsSummary\<close> tests; only their truthiness
  is used.\<close>

record conf =
  BROTLI :: bool
  GZIP :: bool
  JS_UGLIFY :: bool
  JS_SOURCEMAPS :: bool

definition byteCols :: "nat list" where
  "byteCols = [1, 3, 6, 9, 12]"

definition percentCols :: "nat list" where
  "percentCols = [2, 5, 8, 10]"

definition sortCol :: "conf \<Rightarrow> nat" where
  "sortCol C = (if BROTLI C \<or> GZIP C \<or> JS_UGLIFY C then 10 else if JS_SOURCEMAPS C then 3 else 1)"

definition refAllCol :: "conf \<Rightarrow> nat" where
  "refAllCol C =
     (if BROTLI C then 9 else if GZIP C then 6 else if JS_UGLIFY C then 3
      else if JS_SOURCEMAPS C then 3 else 1)"

subsection \<open>Table header\<close>

text \<open>
  \<^verbatim>\<open>label.replace(/^(.*?)_(percent?).*/i, '$1 %')\<close>: the lazy prefix stops at the first
  place where \<^verbatim>\<open>_percen\<close> follows, in either case; the match then runs to the next line
  terminator, which \<^verbatim>\<open>.\<close> does not cross.
\<close>

definition is_line_term :: "char \<Rightarrow> bool" where
  "is_line_term c = (c = CHR 0x0A \<or> c = CHR 0x0D)"

fun match_chars :: "string list \<Rightarrow> string \<Rightarrow> string option" where
  "match_chars [] s = Some s"
| "match_chars (p # ps) [] = None"
| "match_chars (p # ps) (c # cs) = (if c \<in> set p then match_chars ps cs else None)"

definition percent_pattern :: "string list" where
  "percent_pattern = [''_'', ''pP'', ''eE'', ''rR'', ''cC'', ''eE'', ''nN'']"

fun label_scan :: "string \<Rightarrow> string \<Rightarrow> string option" where
  "label_scan pre [] = None"
| "label_scan pre (c # cs) =
     (case match_chars percent_pattern (c # cs) of
        Some rest \<Rightarrow> Some (pre @ '' %'' @ dropWhile (\<lambda>x. \<not> is_line_term x) rest)
      | None \<Rightarrow> if is_line_term c then None else label_scan (pre @ [c]) cs)"

definition head_label :: "string \<Rightarrow> string" where
  "head_label l = (case label_scan [] l of None \<Rightarrow> l | Some r \<Rightarrow> r)"

definition tableHeader :: jsarray where
  "tableHeader = map (\<lambda>l. Some (JsString (head_label l))) trackTable_cols"

subsection \<open>Rows and their order\<close>

text \<open>
  \<^verbatim>\<open>rowData.unshift(fileName)\<close> changes the array stored in \<^verbatim>\<open>trackedFiles\<close>
  itself: \<open>unshift_rows\<close> is the tracker object after the loop, \<open>tableData_of\<close> the
  rows pushed to \<^verbatim>\<open>tableData\<close>.
\<close>

definition unshift_rows :: "tracked \<Rightarrow> tracked" where
  "unshift_rows tf = map (\<lambda>kv. (fst kv, Some (JsString (fst kv)) # snd kv)) tf"

definition tableData_of :: "tracked \<Rightarrow> jsarray list" where
  "tableData_of tf = map snd (unshift_rows tf)"

text \<open>
  \<^verbatim>\<open>tableData.sort((a,b) => a[sortCol] - b[sortCol])\<close>. The comparator's result puts
  \<open>a\<close> after \<open>b\<close> when it is positive; \<^verbatim>\<open>NaN\<close> counts as zero. The sort is modelled as
  a stable insertion sort: with a consistent comparator every stable sort gives this
  result, with an inconsistent one the language leaves the order to the engine.
\<close>

definition compareRows :: "builtins \<Rightarrow> nat \<Rightarrow> jsarray \<Rightarrow> jsarray \<Rightarrow> jsnum" where
  "compareRows B c a b = js_sub B (get_idx a c) (get_idx b c)"

fun num_pos :: "jsnum \<Rightarrow> bool" where
  "num_pos (Finite a) = (0 < a)"
| "num_pos PosInf = True"
| "num_pos _ = False"

fun js_insert :: "('a \<Rightarrow> 'a \<Rightarrow> jsnum) \<Rightarrow> 'a \<Rightarrow> 'a list \<Rightarrow> 'a list" where
  "js_insert cmp x [] = [x]"
| "js_insert cmp x (y # ys) = (if num_pos (cmp x y) then y # js_insert cmp x ys else x # y # ys)"

definition js_sort :: "('a \<Rightarrow> 'a \<Rightarrow> jsnum) \<Rightarrow> 'a list \<Rightarrow> 'a list" where
  "js_sort cmp xs = foldr (js_insert cmp) xs []"

definition sortedTableData :: "builtins \<Rightarrow> conf \<Rightarrow> tracked \<Rightarrow> jsarray list" where
  "sortedTableData B C tf = js_sort (compareRows B (sortCol C)) (tableData_of tf)"

subsection \<open>Column sums and the totals row\<close>

text \<open>\<^verbatim>\<open>sumCols\<close>: \<^verbatim>\<open>map\<close> does not call its function on a hole; \<open>sum_update\<close>
  is \<^verbatim>\<open>(sumRow[i]) ? sumRow[i] + y : y\<close>.\<close>

definition sum_update :: "builtins \<Rightarrow> jsval \<Rightarrow> jsval \<Rightarrow> jsval" where
  "sum_update B y a = (if truthy a then js_add B a y else y)"

definition sum_cell :: "builtins \<Rightarrow> nat \<times> jsval option \<Rightarrow> jsarray \<Rightarrow> jsarray" where
  "sum_cell B ic sumRow =
     (case snd ic of
        None \<Rightarrow> sumRow
      | Some y \<Rightarrow>
          if fst ic \<in> set byteCols then
            set_idx sumRow (fst ic) (sum_update B y (get_idx sumRow (fst ic)))
          else sumRow)"

definition sumCols :: "builtins \<Rightarrow> jsarray list \<Rightarrow> jsarray \<Rightarrow> jsarray" where
  "sumCols B arr sumRow = fold (\<lambda>x s. fold (sum_cell B) (enumerate 0 x) s) arr sumRow"

definition footer :: "builtins \<Rightarrow> conf \<Rightarrow> jsarray \<Rightarrow> jsarray" where
  "footer B C sumRow =
     (let s2 = set_idx sumRow 2 (js_div B (get_idx sumRow 3) (get_idx sumRow 1));
          s5 = set_idx s2 5 (js_div B (js_or (get_idx s2 6) (JsNumber (Finite 0))) (get_idx s2 3));
          s8 = set_idx s5 8 (js_div B (js_or (get_idx s5 9) (JsNumber (Finite 0))) (get_idx s5 3))
      in set_idx s8 10
           (js_div B (js_or (get_idx s8 (refAllCol C)) (JsNumber (Finite 0))) (get_idx s8 1)))"

definition totalsRow :: "builtins \<Rightarrow> conf \<Rightarrow> jsarray list \<Rightarrow> jsarray" where
  "totalsRow B C arr = footer B C (sumCols B arr [])"

subsection \<open>Cell formatting\<close>

text \<open>\<^verbatim>\<open>Number.prototype.toFixed\<close>: the decimal digits of a natural number, then the
  algorithm of the language specification.\<close>

fun digits :: "nat \<Rightarrow> string" where
  "digits n = (if n < 10 then [''0123456789'' ! n] else digits (n div 10) @ [''0123456789'' ! (n mod 10)])"

declare digits.simps [simp del]

definition js_toFixed :: "builtins \<Rightarrow> nat \<Rightarrow> jsnum \<Rightarrow> string" where
  "js_toFixed B f x =
     (case x of
        NaN \<Rightarrow> ''NaN''
      | PosInf \<Rightarrow> ''Infinity''
      | NegInf \<Rightarrow> ''-Infinity''
      | Finite r \<Rightarrow>
          (let s = (if r < 0 then ''-'' else '''');
               a = \<bar>r\<bar>
           in if 10 ^ 21 \<le> a then s @ number_to_str B (Finite a)
              else
                (let n = nat \<lfloor>a * 10 ^ f + 1 / 2\<rfloor>;
                     m = digits n;
                     m' = (if f \<noteq> 0 \<and> length m \<le> f then replicate (f + 1 - length m) CHR ''0'' @ m else m);
                     k = length m'
                 in if f \<noteq> 0 then s @ take (k - f) m' @ ''.'' @ drop (k - f) m' else s @ m')))"

datatype tier = Success | Warning | Danger

type_synonym highlight = "tier \<times> string \<times> nat"

text \<open>
  The body of \<^verbatim>\<open>formatCols\<close> for one cell that is not a hole: the formatted cell and
  the entries pushed to \<^verbatim>\<open>highLightRow\<close>, as (tier, section, row index).
\<close>

definition cell_tier :: "builtins \<Rightarrow> conf \<Rightarrow> nat \<Rightarrow> jsval \<Rightarrow> tier" where
  "cell_tier B C i y =
     (let isSuccess = (y = JsNumber (Finite 1) \<and> \<not> JS_UGLIFY C \<and> trackTable_cols ! i = ''src_percent'')
      in if js_lt B y (3 / 10) \<or> isSuccess then Success
         else if js_lt B y (1 / 2) then Warning
         else Danger)"

definition percent_text :: "builtins \<Rightarrow> jsval \<Rightarrow> string" where
  "percent_text B y =
     (if truthy y
      then js_toFixed B 1 (num_mul (Finite 100) (js_sub B (JsNumber (Finite 1)) y)) @ ''%''
      else '''')"

definition format_cell :: "builtins \<Rightarrow> conf \<Rightarrow> nat \<Rightarrow> nat \<Rightarrow> jsval \<Rightarrow> error + (jsval \<times> highlight list)" where
  "format_cell B C rowIdx i y =
     (if i \<in> set byteCols then
        (case prettyBytes B y of None \<Rightarrow> Inl TypeError | Some s \<Rightarrow> Inr (JsString s, []))
      else if i \<in> set percentCols then
        Inr (JsString (percent_text B y), [(cell_tier B C i y, trackTable_cols ! i, rowIdx)])
      else Inr (y, []))"

fun format_row :: "builtins \<Rightarrow> conf \<Rightarrow> nat \<Rightarrow> nat \<Rightarrow> jsarray \<Rightarrow> error + (jsarray \<times> highlight list)" where
  "format_row B C rowIdx i [] = Inr ([], [])"
| "format_row B C rowIdx i (None # cs) =
     (case format_row B C rowIdx (Suc i) cs of
        Inl e \<Rightarrow> Inl e
      | Inr rh \<Rightarrow> Inr (None # fst rh, snd rh))"
| "format_row B C rowIdx i (Some y # cs) =
     (case format_cell B C rowIdx i y of
        Inl e \<Rightarrow> Inl e
      | Inr vh \<Rightarrow>
          (case format_row B C rowIdx (Suc i) cs of
             Inl e \<Rightarrow> Inl e
           | Inr rh \<Rightarrow> Inr (Some (fst vh) # fst rh, snd vh @ snd rh)))"

fun formatCols :: "builtins \<Rightarrow> conf \<Rightarrow> nat \<Rightarrow> jsarray list \<Rightarrow> error + (jsarray list \<times> highlight list)" where
  "formatCols B C rowIdx [] = Inr ([], [])"
| "formatCols B C rowIdx (x # xs) =
     (case format_row B C rowIdx 0 x of
        Inl e \<Rightarrow> Inl e
      | Inr rh \<Rightarrow>
          (case formatCols B C (Suc rowIdx) xs of
             Inl e \<Rightarrow> Inl e
           | Inr rhs \<Rightarrow> Inr (fst rh # fst rhs, snd rh @ snd rhs)))"

subsection \<open>Column visibility and the report\<close>

text \<open>
  \<^verbatim>\<open>table.removeColumn(n)\<close> of the \<^verbatim>\<open>terminal-table\<close> package takes the cell at
  index \<open>n\<close> out of every row. The report is the content of the table that
  \<^verbatim>\<open>table.toString()\<close> lays out (header first, totals last) with the highlight
  entries; the text layout itself belongs to the package.
\<close>

definition removeColumn :: "nat \<Rightarrow> 'a list \<Rightarrow> 'a list" where
  "removeColumn n row = take n row @ drop (Suc n) row"

definition removedColumns :: "conf \<Rightarrow> nat list" where
  "removedColumns C =
     (if \<not> JS_SOURCEMAPS C then
        [12, 11] @
        (if \<not> BROTLI C \<and> \<not> GZIP C then
           [10, 9, 8, 7, 6, 5, 4] @ (if \<not> JS_UGLIFY C then [3, 2] else [])
         else [])
      else [])"

definition removeColumns :: "conf \<Rightarrow> 'a list \<Rightarrow> 'a list" where
  "removeColumns C row = fold removeColumn (removedColumns C) row"

record report =
  table_rows :: "jsarray list"
  highLightRow :: "highlight list"

text \<open>
  The outcome of a call, the tracker object that was rendered as the call leaves it,
  and the value of the variable \<^verbatim>\<open>trackedFiles\<close> afterwards. An exception of
  \<^verbatim>\<open>prettyBytes\<close> leaves the function before the reset.
\<close>

record summary =
  outcome :: "error + report"
  input_after :: tracked
  trackedFiles_after :: tracked

definition printJsSummary :: "builtins \<Rightarrow> conf \<Rightarrow> tracked \<Rightarrow> summary" where
  "printJsSummary B C trackedFiles =
     (let tableData = sortedTableData B C trackedFiles;
          sumRow = totalsRow B C tableData
      in case formatCols B C 0 (tableData @ [sumRow]) of
           Inl e \<Rightarrow>
             \<lparr>outcome = Inl e, input_after = unshift_rows trackedFiles,
              trackedFiles_after = unshift_rows trackedFiles\<rparr>
         | Inr rh \<Rightarrow>
             \<lparr>outcome = Inr \<lparr>table_rows = map (removeColumns C) (tableHeader # fst rh),
                             highLightRow = snd rh\<rparr>,
              input_after = unshift_rows trackedFiles,
              trackedFiles_after = []\<rparr>)"

text \<open>
  A sample of the parameters, used to evaluate the model on concrete inputs. The
  strings of the samples are file names: the empty string converts to zero and every
  other string to \<^verbatim>\<open>NaN\<close>. A finite number is printed by the decimal digits of its
  integer part, and the sample of \<^verbatim>\<open>prettyBytes\<close> prints the bytes without scaling to
  a unit and throws on everything that is no finite number.
\<close>

definition sample_number_to_str :: "jsnum \<Rightarrow> string" where
  "sample_number_to_str n =
     (case n of
        Finite r \<Rightarrow> (if r < 0 then ''-'' else '''') @ digits (nat \<lfloor>\<bar>r\<bar>\<rfloor>)
      | NaN \<Rightarrow> ''NaN''
      | PosInf \<Rightarrow> ''Infinity''
      | NegInf \<Rightarrow> ''-Infinity'')"

definition sample_builtins :: builtins where
  "sample_builtins =
     \<lparr>str_to_number = (\<lambda>s. if s = [] then Finite 0 else NaN),
      number_to_str = sample_number_to_str,
      prettyBytes =
        (\<lambda>v. case v of
               JsNumber (Finite r) \<Rightarrow> Some (sample_number_to_str (Finite r) @ '' B'')
             | _ \<Rightarrow> None)\<rparr>"

text \<open>
  Reading accessor used to state properties: \<^verbatim>\<open>trackedFiles[key][i - 1]\<close> for the
  index \<open>i\<close> of the column \<open>col\<close> in \<^verbatim>\<open>trackTable.cols\<close>.
\<close>

definition tracked_cell :: "tracked \<Rightarrow> string \<Rightarrow> string \<Rightarrow> jsval" where
  "tracked_cell tf key col =
     (case map_of tf key of
        None \<Rightarrow> JsUndefined
      | Some fd \<Rightarrow>
          (case col_index trackTable_cols col 0 of
             None \<Rightarrow> JsUndefined
           | Some i \<Rightarrow> if i = 0 then JsUndefined else get_idx fd (i - 1)))"

text \<open>Sample events and configurations.\<close>

definition app_js :: event where
  "app_js = \<lparr>fileName = ''app.js'', startSize = JsNumber (Finite 1000),
     endSize = JsNumber (Finite 400), percent = JsNumber (Finite (2 / 5))\<rparr>"

definition app_js_gz :: event where
  "app_js_gz = \<lparr>fileName = ''app.js.gz'', startSize = JsNumber (Finite 400),
     endSize = JsNumber (Finite 150), percent = JsNumber (Finite (3 / 8))\<rparr>"

definition conf_all_off :: conf where
  "conf_all_off = \<lparr>BROTLI = False, GZIP = False, JS_UGLIFY = False, JS_SOURCEMAPS = False\<rparr>"

definition conf_production :: conf where
  "conf_production = \<lparr>BROTLI = True, GZIP = True, JS_UGLIFY = True, JS_SOURCEMAPS = True\<rparr>"

definition conf_sourcemaps_only :: conf where
  "conf_sourcemaps_only = \<lparr>BROTLI = False, GZIP = False, JS_UGLIFY = False, JS_SOURCEMAPS = True\<rparr>"

text \<open>
  The rendering that the specification describes for a percentage: the number rounded
  to one decimal place (a half rounds away from zero), written with its sign, the
  digits of its integer part, a point and one decimal digit.
\<close>

definition round1 :: "rat \<Rightarrow> string" where
  "round1 x =
     (let n = nat \<lfloor>\<bar>x\<bar> * 10 + 1 / 2\<rfloor>
      in (if x < 0 then ''-'' else '''') @ digits (n div 10) @ ''.'' @ digits (n mod 10))"

text \<open>Vocabulary for the properties of the renderer: the rational held by a cell that
  is a finite number, and the cells of one column that are not holes, in row order.\<close>

definition is_finite_number :: "jsval \<Rightarrow> bool" where
  "is_finite_number v = (case v of JsNumber (Finite r) \<Rightarrow> True | _ \<Rightarrow> False)"

definition cell_number :: "jsval \<Rightarrow> rat" where
  "cell_number v = (case v of JsNumber (Finite r) \<Rightarrow> r | _ \<Rightarrow> 0)"

definition column_cells :: "nat \<Rightarrow> jsarray list \<Rightarrow> jsval list" where
  "column_cells i rows =
     concat (map (\<lambda>row. if i < length row then (case row ! i of None \<Rightarrow> [] | Some v \<Rightarrow> [v]) else []) rows)"

definition column_sum :: "nat \<Rightarrow> jsarray list \<Rightarrow> rat" where
  "column_sum i rows = sum_list (map cell_number (column_cells i rows))"

definition byte_cells_finite :: "jsarray list \<Rightarrow> bool" where
  "byte_cells_finite rows = list_all (\<lambda>i. list_all is_finite_number (column_cells i rows)) byteCols"

text \<open>Two files with their source maps, tracked in a pass that only writes source maps.\<close>

definition a_js :: event where
  "a_js = \<lparr>fileName = ''a.js'', startSize = JsNumber (Finite 200),
     endSize = JsNumber (Finite 200), percent = JsNumber (Finite 1)\<rparr>"

definition a_js_map :: event where
  "a_js_map = \<lparr>fileName = ''a.js.map'', startSize = JsNumber (Finite 100),
     endSize = JsNumber (Finite 100), percent = JsNumber (Finite 1)\<rparr>"

definition b_js :: event where
  "b_js = \<lparr>fileName = ''b.js'', startSize = JsNumber (Finite 100),
     endSize = JsNumber (Finite 100), percent = JsNumber (Finite 1)\<rparr>"

definition b_js_map :: event where
  "b_js_map = \<lparr>fileName = ''b.js.map'', startSize = JsNumber (Finite 900),
     endSize = JsNumber (Finite 900), percent = JsNumber (Finite 1)\<rparr>"

definition two_files :: tracked where
  "two_files =
     trackFile sample_builtins b_js_map []
       (trackFile sample_builtins b_js primary_mapping
         (trackFile sample_builtins a_js_map []
           (trackFile sample_builtins a_js primary_mapping [])))"

text \<open>One minified file.\<close>

definition one_file :: tracked where
  "one_file = trackFile sample_builtins app_js primary_mapping []"


section \<open>Auxiliary facts\<close>

lemma split_dot_not_Nil: "split_dot s \<noteq> []"
  by (induction s) (auto split: list.splits)

lemma split_dot_no_dot: "CHR ''.'' \<notin> set e \<Longrightarrow> split_dot e = [e]"
  by (induction e) auto

lemma split_dot_append_ext:
  "CHR ''.'' \<notin> set e \<Longrightarrow> split_dot (f @ ''.'' @ e) = split_dot f @ [e]"
proof (induction f)
  case Nil
  then show ?case by (simp add: split_dot_no_dot)
next
  case (Cons c f)
  then show ?case
    using split_dot_not_Nil [of f] by (auto split: list.splits)
qed

lemma join_dot_Cons_char: "join_dot ((c # p) # ps) = c # join_dot (p # ps)"
  by (cases ps) auto

lemma join_dot_split_dot: "join_dot (split_dot s) = s"
proof (induction s)
  case Nil
  show ?case by simp
next
  case (Cons c s)
  show ?case
  proof (cases "c = CHR ''.''")
    case True
    with Cons split_dot_not_Nil [of s] show ?thesis
      by (cases "split_dot s") auto
  next
    case False
    with Cons split_dot_not_Nil [of s] show ?thesis
      by (cases "split_dot s") (auto simp: join_dot_Cons_char)
  qed
qed

lemma join_dot_snoc: "ps \<noteq> [] \<Longrightarrow> join_dot (ps @ [e]) = join_dot ps @ ''.'' @ e"
  by (induction ps rule: join_dot.induct) auto

lemma split_dot_last_cases:
  "s = last (split_dot s) \<or> s = join_dot (butlast (split_dot s)) @ ''.'' @ last (split_dot s)"
proof (cases "butlast (split_dot s) = []")
  case True
  then have "split_dot s = [last (split_dot s)]"
    using split_dot_not_Nil [of s] by (metis append_butlast_last_id append_Nil)
  then have "join_dot (split_dot s) = last (split_dot s)"
    by (metis join_dot.simps(2))
  then show ?thesis by (simp add: join_dot_split_dot)
next
  case False
  have "split_dot s = butlast (split_dot s) @ [last (split_dot s)]"
    using split_dot_not_Nil [of s] by simp
  then have "join_dot (split_dot s) = join_dot (butlast (split_dot s)) @ ''.'' @ last (split_dot s)"
    using join_dot_snoc [OF False] by metis
  then show ?thesis by (simp add: join_dot_split_dot)
qed

lemma srcFileName_strip:
  assumes "e \<in> set (compressionExt @ [''map''])"
  shows "srcFileName (f @ ''.'' @ e) = f"
proof -
  from assms have nd: "CHR ''.'' \<notin> set e"
    by (auto simp: compressionExt_def gZipOptions_extension_def brotliOptions_extension_def)
  have "split_dot (f @ ''.'' @ e) = split_dot f @ [e]"
    by (rule split_dot_append_ext [OF nd])
  with assms show ?thesis
    by (simp add: srcFileName_def Let_def join_dot_split_dot)
qed

lemma srcFileName_keep:
  assumes "\<not> (\<exists>g. name = g @ ''.gz'' \<or> name = g @ ''.br'' \<or> name = g @ ''.map'')"
    and "name \<notin> {''gz'', ''br'', ''map''}"
  shows "srcFileName name = name"
proof -
  have "last (split_dot name) \<notin> set (compressionExt @ [''map''])"
  proof
    assume in_ext: "last (split_dot name) \<in> set (compressionExt @ [''map''])"
    then have e: "last (split_dot name) \<in> {''gz'', ''br'', ''map''}"
      by (auto simp: compressionExt_def gZipOptions_extension_def brotliOptions_extension_def)
    from split_dot_last_cases [of name] show False
    proof
      assume "name = last (split_dot name)"
      with e assms(2) show False by simp
    next
      assume "name = join_dot (butlast (split_dot name)) @ ''.'' @ last (split_dot name)"
      with e assms(1) show False by auto
    qed
  qed
  then show ?thesis by (simp add: srcFileName_def Let_def)
qed

lemma map_of_obj_set: "map_of (obj_set ps k v) = (map_of ps)(k \<mapsto> v)"
  by (induction ps k v rule: obj_set.induct) auto

lemma keys_obj_set: "fst ` set (obj_set ps k v) = insert k (fst ` set ps)"
  by (induction ps k v rule: obj_set.induct) auto

lemma get_idx_set_idx: "get_idx (set_idx xs i v) j = (if i = j then v else get_idx xs j)"
  by (auto simp: get_idx_def set_idx_def nth_append nth_list_update)

lemma col_index_simps:
  "col_index trackTable_cols ''src'' 0 = Some 1"
  "col_index trackTable_cols ''src_percent'' 0 = Some 2"
  "col_index trackTable_cols ''uglify'' 0 = Some 3"
  "col_index trackTable_cols ''gzipFile'' 0 = Some 4"
  "col_index trackTable_cols ''gzip_percent'' 0 = Some 5"
  "col_index trackTable_cols ''gzip'' 0 = Some 6"
  "col_index trackTable_cols ''brotliFile'' 0 = Some 7"
  "col_index trackTable_cols ''brotli_percent'' 0 = Some 8"
  "col_index trackTable_cols ''brotli'' 0 = Some 9"
  "col_index trackTable_cols ''all_percent'' 0 = Some 10"
  "col_index trackTable_cols ''mapFile'' 0 = Some 11"
  "col_index trackTable_cols ''map'' 0 = Some 12"
  by (simp_all add: trackTable_cols_def)

lemma last_split_dot_ext:
  "CHR ''.'' \<notin> set e \<Longrightarrow> last (split_dot (f @ ''.'' @ e)) = e"
  using split_dot_append_ext [of e f] by simp

lemma trackFile_compression_cell:
  assumes "fileName c = k @ ''.gz'' \<or> fileName c = k @ ''.br''"
  shows "tracked_cell (trackFile B c m tf) k ''all_percent'' =
    js_div B (endSize c) (get_idx (case map_of tf k of None \<Rightarrow> [] | Some fd \<Rightarrow> fd) 0)"
proof -
  from assms show ?thesis
  proof
    assume n: "fileName c = k @ ''.gz''"
    have e: "last (split_dot (fileName c)) = ''gz''"
      using last_split_dot_ext [of "''gz''" k] n by simp
    have s: "srcFileName (fileName c) = k"
      using srcFileName_strip [of "''gz''" k] n
      by (simp add: compressionExt_def gZipOptions_extension_def)
    show ?thesis
      by (simp add: trackFile_def Let_def e s gZipOptions_extension_def brotliOptions_extension_def
          tracked_cell_def map_of_obj_set write_col_def col_index_simps get_idx_set_idx data_field_def)
  next
    assume n: "fileName c = k @ ''.br''"
    have e: "last (split_dot (fileName c)) = ''br''"
      using last_split_dot_ext [of "''br''" k] n by simp
    have s: "srcFileName (fileName c) = k"
      using srcFileName_strip [of "''br''" k] n
      by (simp add: compressionExt_def brotliOptions_extension_def)
    show ?thesis
      by (simp add: trackFile_def Let_def e s gZipOptions_extension_def brotliOptions_extension_def
          tracked_cell_def map_of_obj_set write_col_def col_index_simps get_idx_set_idx data_field_def)
  qed
qed

lemma trackFile_primary_src:
  assumes "last (split_dot (fileName p)) \<notin> set (compressionExt @ [''map''])"
  shows "\<exists>fd. map_of (trackFile B p primary_mapping tf) (fileName p) = Some fd \<and>
    get_idx fd 0 = startSize p"
proof -
  have s: "srcFileName (fileName p) = fileName p"
    using assms by (simp add: srcFileName_def Let_def)
  from assms have ne: "last (split_dot (fileName p)) \<noteq> ''map''"
    "last (split_dot (fileName p)) \<noteq> ''gz''" "last (split_dot (fileName p)) \<noteq> ''br''"
    by (auto simp: compressionExt_def gZipOptions_extension_def brotliOptions_extension_def)
  show ?thesis
    by (simp add: trackFile_def Let_def s ne gZipOptions_extension_def brotliOptions_extension_def
        primary_mapping_def map_of_obj_set write_col_def col_index_simps get_idx_set_idx data_field_def)
qed

lemma num_div_NaN_right: "num_div a NaN = NaN"
  by (cases a) auto

lemma js_div_undefined: "js_div B x JsUndefined = JsNumber NaN"
  by (simp add: js_div_def num_div_NaN_right)

lemma no_suffix_app_js:
  "\<not> (\<exists>g. ''app.js'' = g @ ''.gz'' \<or> ''app.js'' = g @ ''.br'' \<or> ''app.js'' = g @ ''.map'')"
  by (auto dest: arg_cong [where f = last])

lemma format_percent_NaN:
  "i \<in> set percentCols \<Longrightarrow>
   format_cell B C r i (JsNumber NaN) = Inr (JsString '''', [(Danger, trackTable_cols ! i, r)])"
  by (auto simp: format_cell_def byteCols_def percentCols_def percent_text_def cell_tier_def js_lt_def)

lemma refAllCol_cases: "refAllCol C = 9 \<or> refAllCol C = 6 \<or> refAllCol C = 3 \<or> refAllCol C = 1"
  by (simp add: refAllCol_def)

lemma footer_empty:
  "footer B C [] = [None, None, Some (JsNumber NaN), None, None, Some (JsNumber NaN), None, None,
     Some (JsNumber NaN), None, Some (JsNumber NaN)]"
proof -
  let ?n = "Some (JsNumber NaN)"
  have a2: "set_idx [] 2 (js_div B (get_idx [] 3) (get_idx [] 1)) = [None, None, ?n]"
    by (simp add: set_idx_def get_idx_def js_div_undefined numeral_2_eq_2)
  have a5: "set_idx [None, None, ?n] 5
      (js_div B (js_or (get_idx [None, None, ?n] 6) (JsNumber (Finite 0))) (get_idx [None, None, ?n] 3))
    = [None, None, ?n, None, None, ?n]"
    by (simp add: set_idx_def get_idx_def js_div_undefined numeral_2_eq_2)
  have a8: "set_idx [None, None, ?n, None, None, ?n] 8
      (js_div B (js_or (get_idx [None, None, ?n, None, None, ?n] 9) (JsNumber (Finite 0)))
         (get_idx [None, None, ?n, None, None, ?n] 3))
    = [None, None, ?n, None, None, ?n, None, None, ?n]"
    by (simp add: set_idx_def get_idx_def js_div_undefined numeral_2_eq_2)
  have a10: "set_idx [None, None, ?n, None, None, ?n, None, None, ?n] 10
      (js_div B (js_or (get_idx [None, None, ?n, None, None, ?n, None, None, ?n] (refAllCol C))
         (JsNumber (Finite 0)))
         (get_idx [None, None, ?n, None, None, ?n, None, None, ?n] 1))
    = [None, None, ?n, None, None, ?n, None, None, ?n, None, ?n]"
    by (simp add: set_idx_def get_idx_def js_div_undefined)
  show ?thesis
    unfolding footer_def Let_def a2 a5 a8 a10 by (rule refl)
qed

lemma printJsSummary_Nil:
  "printJsSummary B C [] =
     \<lparr>outcome = Inr \<lparr>table_rows =
         [removeColumns C tableHeader,
          removeColumns C [None, None, Some (JsString ''''), None, None, Some (JsString ''''),
            None, None, Some (JsString ''''), None, Some (JsString '''')]],
        highLightRow = [(Danger, ''src_percent'', 0), (Danger, ''gzip_percent'', 0),
          (Danger, ''brotli_percent'', 0), (Danger, ''all_percent'', 0)]\<rparr>,
      input_after = [], trackedFiles_after = []\<rparr>"
proof -
  have t: "sortedTableData B C [] = []"
    by (simp add: sortedTableData_def js_sort_def tableData_of_def unshift_rows_def)
  have s: "totalsRow B C [] = footer B C []"
    by (simp add: totalsRow_def sumCols_def)
  have f: "format_row B C 0 0 (footer B C []) =
    Inr ([None, None, Some (JsString ''''), None, None, Some (JsString ''''),
            None, None, Some (JsString ''''), None, Some (JsString '''')],
         [(Danger, ''src_percent'', 0), (Danger, ''gzip_percent'', 0),
          (Danger, ''brotli_percent'', 0), (Danger, ''all_percent'', 0)])"
    unfolding footer_empty
    by (simp add: format_percent_NaN percentCols_def eval_nat_numeral)
       (simp add: trackTable_cols_def eval_nat_numeral)
  show ?thesis
    by (simp add: printJsSummary_def t s f unshift_rows_def)
qed

lemma tableHeader_eq:
  "tableHeader = map (\<lambda>l. Some (JsString l))
     [''file'', ''src'', ''src %'', ''uglify'', ''gzipFile'', ''gzip %'', ''gzip'',
      ''brotliFile'', ''brotli %'', ''brotli'', ''all %'', ''mapFile'', ''map'']"
  by (simp add: tableHeader_def trackTable_cols_def head_label_def percent_pattern_def is_line_term_def)

lemma removeColumns_header:
  "removeColumns C tableHeader = map (\<lambda>l. Some (JsString l))
     (if JS_SOURCEMAPS C then
        [''file'', ''src'', ''src %'', ''uglify'', ''gzipFile'', ''gzip %'', ''gzip'',
         ''brotliFile'', ''brotli %'', ''brotli'', ''all %'', ''mapFile'', ''map'']
      else if BROTLI C \<or> GZIP C then
        [''file'', ''src'', ''src %'', ''uglify'', ''gzipFile'', ''gzip %'', ''gzip'',
         ''brotliFile'', ''brotli %'', ''brotli'', ''all %'']
      else if JS_UGLIFY C then [''file'', ''src'', ''src %'', ''uglify'']
      else [''file'', ''src''])"
  by (simp add: tableHeader_eq removeColumns_def removedColumns_def removeColumn_def)

lemma printJsSummary_header:
  assumes "outcome (printJsSummary B C tf) = Inr rep"
  shows "\<exists>rows. table_rows rep = map (removeColumns C) (tableHeader # rows)"
  using assms by (auto simp: printJsSummary_def Let_def split: sum.splits)

lemma digits_small: "n < 10 \<Longrightarrow> digits n = [''0123456789'' ! n]"
  by (simp add: digits.simps)

lemma digits_not_Nil: "digits n \<noteq> []"
  by (subst digits.simps) simp

lemma js_toFixed_1:
  assumes "\<bar>x\<bar> < 10 ^ 21"
  shows "js_toFixed B (Suc 0) (Finite x) = round1 x"
proof -
  let ?n = "nat \<lfloor>\<bar>x\<bar> * 10 + 1 / 2\<rfloor>"
  show ?thesis
  proof (cases "?n < 10")
    case True
    then have d: "digits ?n = [''0123456789'' ! ?n]" "?n div 10 = 0" "?n mod 10 = ?n"
      by (simp_all add: digits_small)
    have z: "digits 0 = ''0''" by (simp add: digits_small)
    from assms show ?thesis
      by (simp add: js_toFixed_def round1_def Let_def d z)
  next
    case False
    then have d: "digits ?n = digits (?n div 10) @ [''0123456789'' ! (?n mod 10)]"
      by (subst digits.simps) simp
    have m: "digits (?n mod 10) = [''0123456789'' ! (?n mod 10)]"
      by (simp add: digits_small)
    have ne: "digits (?n div 10) \<noteq> []" by (rule digits_not_Nil)
    from assms ne show ?thesis
      by (simp add: js_toFixed_def round1_def Let_def d m)
  qed
qed


lemma percent_text_one: "percent_text B (JsNumber (Finite 1)) = ''0.0%''"
  by (simp add: percent_text_def js_sub_def num_sub_def js_toFixed_1 round1_def digits_small)

lemma mset_js_insert: "mset (js_insert cmp x xs) = add_mset x (mset xs)"
  by (induction xs) auto

lemma mset_js_sort: "mset (js_sort cmp xs) = mset xs"
  by (induction xs) (auto simp: js_sort_def mset_js_insert)

lemma set_js_insert: "set (js_insert cmp x xs) = insert x (set xs)"
  by (induction xs) auto

lemma compareRows_finite:
  assumes "is_finite_number (get_idx a c)" "is_finite_number (get_idx b c)"
  shows "num_pos (compareRows B c a b) = (cell_number (get_idx b c) < cell_number (get_idx a c))"
  using assms
  by (auto simp: compareRows_def js_sub_def num_sub_def is_finite_number_def cell_number_def
      split: jsval.splits jsnum.splits)

lemma sorted_js_insert:
  assumes "\<forall>y \<in> set (x # xs). is_finite_number (get_idx y c)"
    and "sorted (map (\<lambda>row. cell_number (get_idx row c)) xs)"
  shows "sorted (map (\<lambda>row. cell_number (get_idx row c)) (js_insert (compareRows B c) x xs))"
  using assms
proof (induction xs)
  case Nil
  then show ?case by simp
next
  case (Cons y ys)
  then show ?case
    by (auto simp: compareRows_finite set_js_insert)
qed

lemma sorted_js_sort:
  assumes "\<forall>y \<in> set xs. is_finite_number (get_idx y c)"
  shows "sorted (map (\<lambda>row. cell_number (get_idx row c)) (js_sort (compareRows B c) xs))"
  using assms
proof (induction xs)
  case Nil
  then show ?case by (simp add: js_sort_def)
next
  case (Cons x xs)
  have s: "js_sort (compareRows B c) (x # xs) = js_insert (compareRows B c) x (js_sort (compareRows B c) xs)"
    by (simp add: js_sort_def)
  have "set (js_sort (compareRows B c) xs) = set xs"
    using mset_js_sort [of "compareRows B c" xs] by (metis set_mset_mset)
  with Cons show ?case
    unfolding s by (intro sorted_js_insert) auto
qed

lemma sortCol_name:
  "trackTable_cols ! sortCol C =
     (if BROTLI C \<or> GZIP C \<or> JS_UGLIFY C then ''all_percent''
      else if JS_SOURCEMAPS C then ''uglify'' else ''src'')"
  by (simp add: sortCol_def trackTable_cols_def)

lemma two_files_sorted:
  "sortedTableData sample_builtins conf_sourcemaps_only two_files =
    [[Some (JsString ''b.js''), Some (JsNumber (Finite 100)), Some (JsNumber (Finite 1)),
      Some (JsNumber (Finite 100)), None, None, None, None, None, None,
      Some (JsNumber (Finite 1)), Some (JsString ''b.js.map''), Some (JsNumber (Finite 900))],
     [Some (JsString ''a.js''), Some (JsNumber (Finite 200)), Some (JsNumber (Finite 1)),
      Some (JsNumber (Finite 200)), None, None, None, None, None, None,
      Some (JsNumber (Finite 1)), Some (JsString ''a.js.map''), Some (JsNumber (Finite 100))]]"
  by code_simp

lemma unshift_rows_changes: "tf \<noteq> [] \<Longrightarrow> unshift_rows tf \<noteq> tf"
proof
  assume ne: "tf \<noteq> []" and eq: "unshift_rows tf = tf"
  then obtain kv rest where tf: "tf = kv # rest" by (cases tf) auto
  from eq have "length (snd (hd (unshift_rows tf))) = length (snd (hd tf))" by simp
  then show False by (simp add: tf unshift_rows_def)
qed

lemma input_after_eq: "input_after (printJsSummary B C tf) = unshift_rows tf"
  by (simp add: printJsSummary_def Let_def split: sum.splits)

lemma trackedFiles_after_ok:
  "outcome (printJsSummary B C tf) = Inr rep \<Longrightarrow> trackedFiles_after (printJsSummary B C tf) = []"
  by (auto simp: printJsSummary_def Let_def split: sum.splits)

lemma one_file_report:
  "outcome (printJsSummary sample_builtins conf_production one_file) =
     Inr \<lparr>table_rows =
         [[Some (JsString ''file''), Some (JsString ''src''), Some (JsString ''src %''),
           Some (JsString ''uglify''), Some (JsString ''gzipFile''), Some (JsString ''gzip %''),
           Some (JsString ''gzip''), Some (JsString ''brotliFile''), Some (JsString ''brotli %''),
           Some (JsString ''brotli''), Some (JsString ''all %''), Some (JsString ''mapFile''),
           Some (JsString ''map'')],
          [Some (JsString ''app.js''), Some (JsString ''1000 B''), Some (JsString ''60.0%''),
           Some (JsString ''400 B''), None, None, None, None, None, None, Some (JsString ''60.0%'')],
          [None, Some (JsString ''1000 B''), Some (JsString ''60.0%''), Some (JsString ''400 B''),
           None, Some (JsString ''''), None, None, Some (JsString ''''), None, Some (JsString '''')]],
        highLightRow =
          [(Warning, ''src_percent'', 0), (Warning, ''all_percent'', 0),
           (Warning, ''src_percent'', 1), (Success, ''gzip_percent'', 1),
           (Success, ''brotli_percent'', 1), (Success, ''all_percent'', 1)]\<rparr>"
  by code_simp

lemma get_idx_sum_cell:
  "get_idx (sum_cell B (n, c) s) i =
     (if i = n \<and> n \<in> set byteCols
      then (case c of None \<Rightarrow> get_idx s i | Some y \<Rightarrow> sum_update B y (get_idx s i))
      else get_idx s i)"
  by (auto simp: sum_cell_def get_idx_set_idx split: option.splits)

lemma get_idx_sum_row:
  "get_idx (fold (sum_cell B) (enumerate n x) s) i =
     (if i \<in> set byteCols \<and> n \<le> i \<and> i < n + length x
      then (case x ! (i - n) of None \<Rightarrow> get_idx s i | Some y \<Rightarrow> sum_update B y (get_idx s i))
      else get_idx s i)"
proof (induction x arbitrary: n s)
  case Nil
  then show ?case by auto
next
  case (Cons c x)
  show ?case
  proof (cases "i = n")
    case True
    have "get_idx (fold (sum_cell B) (enumerate (Suc n) x) (sum_cell B (n, c) s)) i =
      get_idx (sum_cell B (n, c) s) i"
      by (subst Cons.IH) (use True in simp)
    then show ?thesis
      using True by (auto simp: get_idx_sum_cell split: option.splits)
  next
    case False
    then show ?thesis
      by (auto simp: Cons.IH get_idx_sum_cell Suc_diff_le nth_Cons' not_less_eq_eq
          split: option.splits)
  qed
qed

lemma column_cells_Cons:
  "column_cells i (x # rows) =
     (if i < length x then (case x ! i of None \<Rightarrow> [] | Some v \<Rightarrow> [v]) else []) @ column_cells i rows"
  by (simp add: column_cells_def)

text \<open>Whatever the cells hold, a byte column of \<^verbatim>\<open>sumRow\<close> is the fold of the
  source's update over the cells of that column, and no other slot is written.\<close>

lemma get_idx_sumCols:
  "get_idx (sumCols B rows s) i =
     (if i \<in> set byteCols then fold (sum_update B) (column_cells i rows) (get_idx s i)
      else get_idx s i)"
proof (induction rows arbitrary: s)
  case Nil
  then show ?case by (simp add: sumCols_def column_cells_def)
next
  case (Cons x rows)
  have "sumCols B (x # rows) s = sumCols B rows (fold (sum_cell B) (enumerate 0 x) s)"
    by (simp add: sumCols_def)
  then show ?case
    using get_idx_sum_row [of B 0 x s i]
    by (auto simp: Cons.IH column_cells_Cons split: option.splits)
qed

lemma fold_sum_update_finite:
  assumes "list_all is_finite_number cs" and "a = JsUndefined \<or> is_finite_number a"
  shows "fold (sum_update B) cs a =
     (if cs = [] then a else JsNumber (Finite (cell_number a + sum_list (map cell_number cs))))"
  using assms
proof (induction cs arbitrary: a)
  case Nil
  then show ?case by simp
next
  case (Cons c cs)
  from Cons.prems obtain r where c: "c = JsNumber (Finite r)"
    by (auto simp: is_finite_number_def split: jsval.splits jsnum.splits)
  have u: "sum_update B c a = JsNumber (Finite (cell_number a + r))"
    using Cons.prems(2)
    by (auto simp: c sum_update_def cell_number_def is_finite_number_def
        split: jsval.splits jsnum.splits)
  have "fold (sum_update B) cs (JsNumber (Finite (cell_number a + r))) =
    (if cs = [] then JsNumber (Finite (cell_number a + r))
     else JsNumber (Finite (cell_number (JsNumber (Finite (cell_number a + r))) +
       sum_list (map cell_number cs))))"
    using Cons.prems(1) by (intro Cons.IH) (simp_all add: is_finite_number_def)
  moreover have "cell_number (JsNumber (Finite (cell_number a + r))) = cell_number a + r"
    "cell_number c = r"
    by (simp_all add: cell_number_def c)
  ultimately show ?case
    using u by (simp add: add.assoc)
qed

lemma sumCols_byte_column:
  assumes "byte_cells_finite rows" and "i \<in> set byteCols"
  shows "get_idx (sumCols B rows []) i =
    (if column_cells i rows = [] then JsUndefined else JsNumber (Finite (column_sum i rows)))"
proof -
  from assms have f: "list_all is_finite_number (column_cells i rows)"
    by (simp add: byte_cells_finite_def list_all_iff)
  have "get_idx [] i = JsUndefined" by (simp add: get_idx_def)
  then show ?thesis
    using fold_sum_update_finite [OF f, of JsUndefined B] assms(2)
    by (simp add: get_idx_sumCols column_sum_def cell_number_def)
qed

lemma get_idx_footer:
  "get_idx (footer B C s) i =
     (if i = 2 then js_div B (get_idx s 3) (get_idx s 1)
      else if i = 5 then js_div B (js_or (get_idx s 6) (JsNumber (Finite 0))) (get_idx s 3)
      else if i = 8 then js_div B (js_or (get_idx s 9) (JsNumber (Finite 0))) (get_idx s 3)
      else if i = 10 then
        js_div B (js_or (get_idx s (refAllCol C)) (JsNumber (Finite 0))) (get_idx s 1)
      else get_idx s i)"
  using refAllCol_cases [of C]
  by (auto simp: footer_def Let_def get_idx_set_idx)

lemma js_div_by_zero: "\<not> is_finite_number (js_div B x (JsNumber (Finite 0)))"
  by (cases "to_number B x") (auto simp: js_div_def is_finite_number_def)

lemma js_div_by_undefined: "\<not> is_finite_number (js_div B x JsUndefined)"
  by (simp add: js_div_undefined is_finite_number_def)

lemma format_percent_total:
  "i \<in> set percentCols \<Longrightarrow> \<exists>w h. format_cell B C r i y = Inr (w, h)"
  by (auto simp: format_cell_def byteCols_def percentCols_def)

lemma refAllCol_name:
  "trackTable_cols ! refAllCol C =
     (if BROTLI C then ''brotli'' else if GZIP C then ''gzip''
      else if JS_UGLIFY C \<or> JS_SOURCEMAPS C then ''uglify'' else ''src'')"
  by (simp add: refAllCol_def trackTable_cols_def)

lemma totalsRow_byte_column:
  assumes "byte_cells_finite rows" and "i \<in> set byteCols"
  shows "get_idx (totalsRow B C rows) i =
    (if column_cells i rows = [] then JsUndefined else JsNumber (Finite (column_sum i rows)))"
proof -
  from assms(2) have "i \<noteq> 2" "i \<noteq> 5" "i \<noteq> 8" "i \<noteq> 10"
    by (auto simp: byteCols_def)
  then show ?thesis
    by (simp add: totalsRow_def get_idx_footer sumCols_byte_column [OF assms])
qed

lemma totalsRow_percent:
  "get_idx (totalsRow B C rows) 2 =
      js_div B (get_idx (totalsRow B C rows) 3) (get_idx (totalsRow B C rows) 1)"
  "get_idx (totalsRow B C rows) 5 =
      js_div B (js_or (get_idx (totalsRow B C rows) 6) (JsNumber (Finite 0)))
        (get_idx (totalsRow B C rows) 3)"
  "get_idx (totalsRow B C rows) 8 =
      js_div B (js_or (get_idx (totalsRow B C rows) 9) (JsNumber (Finite 0)))
        (get_idx (totalsRow B C rows) 3)"
  "get_idx (totalsRow B C rows) 10 =
      js_div B (js_or (get_idx (totalsRow B C rows) (refAllCol C)) (JsNumber (Finite 0)))
        (get_idx (totalsRow B C rows) 1)"
  using refAllCol_cases [of C]
  by (auto simp: totalsRow_def get_idx_footer)

lemma format_row_cell:
  assumes "format_row B C r i x = Inr (y, h)" and "j < length x"
  shows "length y = length x \<and>
    (case x ! j of
       None \<Rightarrow> y ! j = None
     | Some v \<Rightarrow> \<exists>w hl. format_cell B C r (i + j) v = Inr (w, hl) \<and> y ! j = Some w \<and> set hl \<subseteq> set h)"
  using assms
proof (induction x arbitrary: i y h j)
  case Nil
  then show ?case by simp
next
  case (Cons c x)
  show ?case
  proof (cases c)
    case None
    with Cons.prems obtain y' where r: "format_row B C r (Suc i) x = Inr (y', h)" and y: "y = None # y'"
      by (auto split: sum.splits)
    show ?thesis
    proof (cases j)
      case 0
      with None y r Cons.IH [OF r] show ?thesis
        by (cases x) (auto split: sum.splits)
    next
      case (Suc j')
      with Cons.prems have "j' < length x" by simp
      from Cons.IH [OF r this] show ?thesis
        by (auto simp: Suc y split: option.splits)
    qed
  next
    case (Some v)
    with Cons.prems obtain w h1 y' h2 where
      c: "format_cell B C r i v = Inr (w, h1)" and
      r: "format_row B C r (Suc i) x = Inr (y', h2)" and
      y: "y = Some w # y'" and h: "h = h1 @ h2"
      by (auto split: sum.splits)
    show ?thesis
    proof (cases j)
      case 0
      have "length y' = length x"
      proof (cases x)
        case Nil
        with r show ?thesis by simp
      next
        case (Cons a list)
        then have "0 < length x" by simp
        from Cons.IH [OF r this] show ?thesis by simp
      qed
      with 0 Some c y h show ?thesis by simp
    next
      case (Suc j')
      with Cons.prems have "j' < length x" by simp
      from Cons.IH [OF r this] show ?thesis
        by (auto simp: Suc y h split: option.splits)
    qed
  qed
qed

lemma formatCols_row:
  assumes "formatCols B C r xs = Inr (ys, h)" and "n < length xs"
  shows "length ys = length xs \<and>
    (\<exists>h'. format_row B C (r + n) 0 (xs ! n) = Inr (ys ! n, h') \<and> set h' \<subseteq> set h)"
  using assms
proof (induction xs arbitrary: r ys h n)
  case Nil
  then show ?case by simp
next
  case (Cons x xs)
  from Cons.prems obtain y h1 ys' h2 where
    a: "format_row B C r 0 x = Inr (y, h1)" and
    b: "formatCols B C (Suc r) xs = Inr (ys', h2)" and
    ys: "ys = y # ys'" and h: "h = h1 @ h2"
    by (auto split: sum.splits)
  have len: "length ys' = length xs"
  proof (cases xs)
    case Nil
    with b show ?thesis by simp
  next
    case (Cons a list)
    then have "0 < length xs" by simp
    from Cons.IH [OF b this] show ?thesis by simp
  qed
  show ?case
  proof (cases n)
    case 0
    with a ys h len show ?thesis by simp
  next
    case (Suc n')
    with Cons.prems have "n' < length xs" by simp
    from Cons.IH [OF b this] show ?thesis
      by (auto simp: Suc ys h)
  qed
qed

lemma formatCols_cell:
  assumes "formatCols B C 0 rows = Inr (out, hl)" and "n < length rows"
    and "j < length (rows ! n)" and "rows ! n ! j = Some v"
  shows "\<exists>w h. format_cell B C n j v = Inr (w, h) \<and> out ! n ! j = Some w \<and> set h \<subseteq> set hl"
proof -
  obtain h' where r: "format_row B C n 0 (rows ! n) = Inr (out ! n, h')" and s: "set h' \<subseteq> set hl"
    using formatCols_row [OF assms(1,2)] by auto
  from format_row_cell [OF r assms(3)] assms(4) s show ?thesis
    by auto
qed

lemma formatCols_percent_cell:
  assumes "formatCols B C 0 rows = Inr (out, hl)" and "n < length rows"
    and "j < length (rows ! n)" and "rows ! n ! j = Some y" and "j \<in> set percentCols"
  shows "out ! n ! j = Some (JsString (percent_text B y)) \<and>
    (cell_tier B C j y, trackTable_cols ! j, n) \<in> set hl"
proof -
  have "format_cell B C n j y =
    Inr (JsString (percent_text B y), [(cell_tier B C j y, trackTable_cols ! j, n)])"
    using assms(5) by (auto simp: format_cell_def byteCols_def percentCols_def)
  with formatCols_cell [OF assms(1-4)] show ?thesis by auto
qed





lemma trackFile_keeps_src:
  assumes "map_of tf k = Some fd" and "get_idx fd 0 = v"
    and "srcFileName (fileName d) \<noteq> k \<or> last (split_dot (fileName d)) \<in> set (compressionExt @ [''map''])"
  shows "\<exists>fd'. map_of (trackFile B d m tf) k = Some fd' \<and> get_idx fd' 0 = v"
proof (cases "srcFileName (fileName d) = k")
  case False
  with assms(1,2) show ?thesis
    by (simp add: trackFile_def Let_def map_of_obj_set)
next
  case True
  with assms(3) have "last (split_dot (fileName d)) = ''gz'' \<or> last (split_dot (fileName d)) = ''br''
      \<or> last (split_dot (fileName d)) = ''map''"
    by (auto simp: compressionExt_def gZipOptions_extension_def brotliOptions_extension_def)
  then show ?thesis
    using assms(1,2) True
    by (auto simp: trackFile_def Let_def map_of_obj_set gZipOptions_extension_def
        brotliOptions_extension_def write_col_def col_index_simps get_idx_set_idx)
qed

lemma trackFiles_keeps_src:
  assumes "map_of tf k = Some fd" and "get_idx fd 0 = v"
    and "\<forall>dm \<in> set es. srcFileName (fileName (fst dm)) \<noteq> k \<or>
           last (split_dot (fileName (fst dm))) \<in> set (compressionExt @ [''map''])"
  shows "\<exists>fd'. map_of (trackFiles B es tf) k = Some fd' \<and> get_idx fd' 0 = v"
  using assms
proof (induction es arbitrary: tf fd)
  case Nil
  then show ?case by (simp add: trackFiles_def)
next
  case (Cons dm es)
  obtain fd1 where 1: "map_of (trackFile B (fst dm) (snd dm) tf) k = Some fd1" "get_idx fd1 0 = v"
    using trackFile_keeps_src [OF Cons.prems(1,2), of "fst dm" B "snd dm"] Cons.prems(3) by auto
  have "trackFiles B (dm # es) tf = trackFiles B es (trackFile B (fst dm) (snd dm) tf)"
    by (simp add: trackFiles_def)
  with Cons.IH [OF 1] Cons.prems(3) show ?case by simp
qed



section \<open>Properties of the tracker and the renderer\<close>

subsection \<open>The combined ratio of a compression stage\<close>

text \<open>
  Claim C1, as amended. A primary-stage event \<open>p\<close> (its extension is none of
  \<^verbatim>\<open>gz\<close>, \<^verbatim>\<open>br\<close>, \<^verbatim>\<open>map\<close>) is tracked with the primary mapping; events \<open>es\<close>
  follow, each of another key or of a compression or source-map stage; then the
  compression-stage event \<open>c\<close> of the key of \<open>p\<close> is tracked. The \<^verbatim>\<open>all_percent\<close>
  slot of the key then holds \<^verbatim>\<open>c.endSize / p.startSize\<close>: the divisor is slot 0, the
  \<^verbatim>\<open>src\<close> column, which is the size before minification.
\<close>

theorem combined_ratio_over_source_size:
  assumes "last (split_dot (fileName p)) \<notin> set (compressionExt @ [''map''])"
    and "\<forall>dm \<in> set es. srcFileName (fileName (fst dm)) \<noteq> fileName p \<or>
           last (split_dot (fileName (fst dm))) \<in> set (compressionExt @ [''map''])"
    and "fileName c = fileName p @ ''.gz'' \<or> fileName c = fileName p @ ''.br''"
  shows "tracked_cell (trackFile B c m (trackFiles B es (trackFile B p primary_mapping tf)))
      (fileName p) ''all_percent''
    = js_div B (endSize c) (startSize p)"
proof -
  obtain fd where "map_of (trackFile B p primary_mapping tf) (fileName p) = Some fd"
    and "get_idx fd 0 = startSize p"
    using trackFile_primary_src [OF assms(1)] by blast
  then obtain fd' where
    "map_of (trackFiles B es (trackFile B p primary_mapping tf)) (fileName p) = Some fd'"
    and "get_idx fd' 0 = startSize p"
    using trackFiles_keeps_src [OF _ _ assms(2)] by blast
  then show ?thesis
    using trackFile_compression_cell
      [OF assms(3), of B m "trackFiles B es (trackFile B p primary_mapping tf)"]
    by simp
qed

text \<open>\<^verbatim>\<open>app.js\<close> goes from 1000 to 400 bytes, the events of \<^verbatim>\<open>b.js\<close> and its
  source map follow, and \<^verbatim>\<open>app.js.gz\<close> has 150 bytes: the combined ratio is
  150 / 1000.\<close>

theorem combined_ratio_over_source_size_witness:
  "tracked_cell (trackFile sample_builtins app_js_gz []
      (trackFiles sample_builtins [(b_js, primary_mapping), (b_js_map, [])]
         (trackFile sample_builtins app_js primary_mapping [])))
      ''app.js'' ''all_percent'' = JsNumber (Finite (3 / 20))"
proof -
  have h1: "last (split_dot (fileName app_js)) \<notin> set (compressionExt @ [''map''])"
    by (simp add: app_js_def compressionExt_def gZipOptions_extension_def brotliOptions_extension_def)
  have h2: "\<forall>dm \<in> set [(b_js, primary_mapping), (b_js_map, [])].
      srcFileName (fileName (fst dm)) \<noteq> fileName app_js \<or>
      last (split_dot (fileName (fst dm))) \<in> set (compressionExt @ [''map''])"
    by code_simp
  have h3: "fileName app_js_gz = fileName app_js @ ''.gz'' \<or> fileName app_js_gz = fileName app_js @ ''.br''"
    by (simp add: app_js_def app_js_gz_def)
  show ?thesis
    using combined_ratio_over_source_size [OF h1 h2 h3, of sample_builtins "[]" "[]"]
    by (simp add: app_js_def app_js_gz_def js_div_def)
qed

text \<open>
  Claim C1 as stated fails on \<^verbatim>\<open>app.js\<close> followed by \<^verbatim>\<open>app.js.gz\<close>: the primary stage records 400 in the
  \<^verbatim>\<open>uglify\<close> slot, the claim's divisor, and 150 / 400 is 3 / 8, but the slot
  \<^verbatim>\<open>all_percent\<close> holds 3 / 20.
\<close>

theorem combined_ratio_not_over_uglify_size:
  "tracked_cell (trackFile sample_builtins app_js primary_mapping []) ''app.js'' ''uglify'' = JsNumber (Finite 400) \<and>
   tracked_cell (trackFile sample_builtins app_js_gz [] (trackFile sample_builtins app_js primary_mapping []))
      ''app.js'' ''all_percent'' = JsNumber (Finite (3 / 20)) \<and>
   js_div sample_builtins (endSize app_js_gz) (JsNumber (Finite 400)) = JsNumber (Finite (3 / 8)) \<and>
   tracked_cell (trackFile sample_builtins app_js_gz [] (trackFile sample_builtins app_js primary_mapping []))
      ''app.js'' ''all_percent'' \<noteq>
   js_div sample_builtins (endSize app_js_gz)
     (tracked_cell (trackFile sample_builtins app_js primary_mapping []) ''app.js'' ''uglify'')"
  by (simp add: trackFile_def Let_def srcFileName_def app_js_def app_js_gz_def primary_mapping_def
      compressionExt_def gZipOptions_extension_def brotliOptions_extension_def
      tracked_cell_def write_col_def col_index_simps get_idx_set_idx data_field_def js_div_def)

subsection \<open>The sort column and the order of the rows\<close>

text \<open>
  Claim C2, as amended. The sort column is \<^verbatim>\<open>all_percent\<close> when any of gzip, brotli and
  minification ran; otherwise, when source maps are on, it is column 3, \<^verbatim>\<open>uglify\<close>, the
  size of the primary stage's output; otherwise \<^verbatim>\<open>src\<close>. The sorted rows are the
  tracked rows, and they are ascending in the sort column when every row holds a finite
  number there.
\<close>

theorem sort_column_and_order:
  "trackTable_cols ! sortCol C =
     (if BROTLI C \<or> GZIP C \<or> JS_UGLIFY C then ''all_percent''
      else if JS_SOURCEMAPS C then ''uglify'' else ''src'') \<and>
   mset (sortedTableData B C tf) = mset (tableData_of tf) \<and>
   ((\<forall>row \<in> set (tableData_of tf). is_finite_number (get_idx row (sortCol C))) \<longrightarrow>
      sorted (map (\<lambda>row. cell_number (get_idx row (sortCol C))) (sortedTableData B C tf)))"
  by (simp add: sortCol_name sortedTableData_def mset_js_sort sorted_js_sort)

text \<open>Two files in a pass that only writes source maps: sorted by the column
  \<^verbatim>\<open>uglify\<close>, 100 before 200.\<close>

theorem sort_column_and_order_witness:
  "trackTable_cols ! sortCol conf_sourcemaps_only = ''uglify'' \<and>
   mset (sortedTableData sample_builtins conf_sourcemaps_only two_files) = mset (tableData_of two_files) \<and>
   sorted (map (\<lambda>row. cell_number (get_idx row (sortCol conf_sourcemaps_only)))
     (sortedTableData sample_builtins conf_sourcemaps_only two_files)) \<and>
   map (\<lambda>row. cell_number (get_idx row (sortCol conf_sourcemaps_only)))
     (sortedTableData sample_builtins conf_sourcemaps_only two_files) = [100, 200]"
proof -
  have h: "\<forall>row \<in> set (tableData_of two_files).
      is_finite_number (get_idx row (sortCol conf_sourcemaps_only))"
    by code_simp
  have v: "map (\<lambda>row. cell_number (get_idx row (sortCol conf_sourcemaps_only)))
     (sortedTableData sample_builtins conf_sourcemaps_only two_files) = [100, 200]"
    by code_simp
  show ?thesis
    using sort_column_and_order [of conf_sourcemaps_only sample_builtins two_files] h v
    by (simp add: conf_sourcemaps_only_def)
qed

text \<open>
  Claim C2 as stated fails in that pass: the sort column is \<^verbatim>\<open>uglify\<close>, not the
  source-map size (column 12, \<^verbatim>\<open>map\<close>), and the sorted rows have the source-map sizes
  900 and then 100.
\<close>

theorem sort_column_is_not_map_size:
  "trackTable_cols ! sortCol conf_sourcemaps_only = ''uglify'' \<and>
   trackTable_cols ! 12 = ''map'' \<and>
   sortedTableData sample_builtins conf_sourcemaps_only two_files =
    [[Some (JsString ''b.js''), Some (JsNumber (Finite 100)), Some (JsNumber (Finite 1)),
      Some (JsNumber (Finite 100)), None, None, None, None, None, None,
      Some (JsNumber (Finite 1)), Some (JsString ''b.js.map''), Some (JsNumber (Finite 900))],
     [Some (JsString ''a.js''), Some (JsNumber (Finite 200)), Some (JsNumber (Finite 1)),
      Some (JsNumber (Finite 200)), None, None, None, None, None, None,
      Some (JsNumber (Finite 1)), Some (JsString ''a.js.map''), Some (JsNumber (Finite 100))]]"
  by (simp add: two_files_sorted sortCol_name)
     (simp add: trackTable_cols_def conf_sourcemaps_only_def)

subsection \<open>Visible columns\<close>

text \<open>
  Claim C3, as amended. Every row of the report has the same columns taken out, and
  the header that is left is: all thirteen columns when source maps are on; without the
  two source-map columns when source maps are off; without the compression columns
  (gzip, brotli and the combined percentage) as well when, with source maps off, neither
  gzip nor brotli ran; and only \<^verbatim>\<open>file\<close> and \<^verbatim>\<open>src\<close> when, with source maps off,
  none of minify, gzip and brotli ran.
\<close>

theorem visible_columns:
  assumes "outcome (printJsSummary B C tf) = Inr rep"
  shows "(\<exists>rows. table_rows rep = map (removeColumns C) (tableHeader # rows)) \<and>
    hd (table_rows rep) = map (\<lambda>l. Some (JsString l))
     (if JS_SOURCEMAPS C then
        [''file'', ''src'', ''src %'', ''uglify'', ''gzipFile'', ''gzip %'', ''gzip'',
         ''brotliFile'', ''brotli %'', ''brotli'', ''all %'', ''mapFile'', ''map'']
      else if BROTLI C \<or> GZIP C then
        [''file'', ''src'', ''src %'', ''uglify'', ''gzipFile'', ''gzip %'', ''gzip'',
         ''brotliFile'', ''brotli %'', ''brotli'', ''all %'']
      else if JS_UGLIFY C then [''file'', ''src'', ''src %'', ''uglify'']
      else [''file'', ''src''])"
proof -
  obtain rows where r: "table_rows rep = map (removeColumns C) (tableHeader # rows)"
    using printJsSummary_header [OF assms] by blast
  then have "hd (table_rows rep) = removeColumns C tableHeader" by simp
  with r show ?thesis by (simp only: removeColumns_header) blast
qed

text \<open>With every flag off the header of the empty report is \<^verbatim>\<open>file\<close>, \<^verbatim>\<open>src\<close>.\<close>

theorem visible_columns_witness:
  "outcome (printJsSummary sample_builtins conf_all_off []) =
     Inr \<lparr>table_rows = [[Some (JsString ''file''), Some (JsString ''src'')], [None, None]],
        highLightRow = [(Danger, ''src_percent'', 0), (Danger, ''gzip_percent'', 0),
          (Danger, ''brotli_percent'', 0), (Danger, ''all_percent'', 0)]\<rparr> \<and>
   hd [[Some (JsString ''file''), Some (JsString ''src'')], [None, None]] =
     map (\<lambda>l. Some (JsString l)) [''file'', ''src'']"
proof -
  have o: "outcome (printJsSummary sample_builtins conf_all_off []) =
     Inr \<lparr>table_rows = [[Some (JsString ''file''), Some (JsString ''src'')], [None, None]],
        highLightRow = [(Danger, ''src_percent'', 0), (Danger, ''gzip_percent'', 0),
          (Danger, ''brotli_percent'', 0), (Danger, ''all_percent'', 0)]\<rparr>"
    by (simp add: printJsSummary_Nil removeColumns_header)
       (simp add: removeColumns_def removedColumns_def removeColumn_def conf_all_off_def)
  show ?thesis
    using visible_columns [OF o] o by (simp add: conf_all_off_def)
qed

text \<open>
  Claim C3 as stated fails when source maps are on and none of minify, gzip and brotli
  ran: no column is removed, the compression and minification columns stay in the report.
\<close>

theorem compression_columns_visible_with_sourcemaps:
  "outcome (printJsSummary sample_builtins conf_sourcemaps_only []) =
     Inr \<lparr>table_rows =
         [[Some (JsString ''file''), Some (JsString ''src''), Some (JsString ''src %''),
           Some (JsString ''uglify''), Some (JsString ''gzipFile''), Some (JsString ''gzip %''),
           Some (JsString ''gzip''), Some (JsString ''brotliFile''), Some (JsString ''brotli %''),
           Some (JsString ''brotli''), Some (JsString ''all %''), Some (JsString ''mapFile''),
           Some (JsString ''map'')],
          [None, None, Some (JsString ''''), None, None, Some (JsString ''''),
            None, None, Some (JsString ''''), None, Some (JsString '''')]],
        highLightRow = [(Danger, ''src_percent'', 0), (Danger, ''gzip_percent'', 0),
          (Danger, ''brotli_percent'', 0), (Danger, ''all_percent'', 0)]\<rparr> \<and>
   \<not> JS_UGLIFY conf_sourcemaps_only \<and> \<not> GZIP conf_sourcemaps_only \<and>
   \<not> BROTLI conf_sourcemaps_only"
  by (simp add: printJsSummary_Nil removeColumns_header)
     (simp add: removeColumns_def removedColumns_def conf_sourcemaps_only_def)

subsection \<open>The tier of a percentage cell\<close>

text \<open>
  Claim C4. A percentage cell that holds the number \<open>y\<close> is pushed to exactly one tier:
  success when \<open>y < 0.3\<close>, warning when \<open>0.3 \<le> y < 0.5\<close>, and danger otherwise, except
  that \<open>y = 1\<close> in the column \<^verbatim>\<open>src_percent\<close> is success when minification is off. So
  a ratio of exactly 1 is success only with minification off (and only in that column)
  and danger in every other case; \<^verbatim>\<open>NaN\<close> and \<^verbatim>\<open>undefined\<close> are danger. In a
  table that \<^verbatim>\<open>formatCols\<close> formats, the tier of every percentage cell is among the
  highlight entries, under its column and row.
\<close>

theorem percentage_cell_tier:
  assumes "i \<in> set percentCols"
  shows "format_cell B C r i (JsNumber (Finite y)) =
      Inr (JsString (percent_text B (JsNumber (Finite y))),
        [(if y < 3 / 10 then Success
          else if y < 1 / 2 then Warning
          else if y = 1 \<and> \<not> JS_UGLIFY C \<and> trackTable_cols ! i = ''src_percent'' then Success
          else Danger, trackTable_cols ! i, r)]) \<and>
    cell_tier B C i (JsNumber (Finite 1)) =
      (if \<not> JS_UGLIFY C \<and> trackTable_cols ! i = ''src_percent'' then Success else Danger) \<and>
    cell_tier B C i (JsNumber NaN) = Danger \<and> cell_tier B C i JsUndefined = Danger \<and>
    (formatCols B C 0 rows = Inr (out, hl) \<and> n < length rows \<and> i < length (rows ! n) \<and>
       rows ! n ! i = Some v \<longrightarrow> (cell_tier B C i v, trackTable_cols ! i, n) \<in> set hl)"
proof -
  have t: "formatCols B C 0 rows = Inr (out, hl) \<and> n < length rows \<and> i < length (rows ! n) \<and>
       rows ! n ! i = Some v \<longrightarrow> (cell_tier B C i v, trackTable_cols ! i, n) \<in> set hl"
    using formatCols_percent_cell [of B C rows out hl n i v] assms by blast
  have a: "format_cell B C r i (JsNumber (Finite y)) =
      Inr (JsString (percent_text B (JsNumber (Finite y))),
        [(if y < 3 / 10 then Success
          else if y < 1 / 2 then Warning
          else if y = 1 \<and> \<not> JS_UGLIFY C \<and> trackTable_cols ! i = ''src_percent'' then Success
          else Danger, trackTable_cols ! i, r)])"
  proof -
    have nb: "i \<notin> set byteCols"
      using assms by (auto simp: byteCols_def percentCols_def)
    have "cell_tier B C i (JsNumber (Finite y)) =
       (if y < 3 / 10 then Success
        else if y < 1 / 2 then Warning
        else if y = 1 \<and> \<not> JS_UGLIFY C \<and> trackTable_cols ! i = ''src_percent'' then Success
        else Danger)"
      by (simp add: cell_tier_def js_lt_def)
    then show ?thesis
      by (simp add: format_cell_def nb assms)
  qed
  have b: "cell_tier B C i (JsNumber (Finite 1)) =
      (if \<not> JS_UGLIFY C \<and> trackTable_cols ! i = ''src_percent'' then Success else Danger)"
    "cell_tier B C i (JsNumber NaN) = Danger" "cell_tier B C i JsUndefined = Danger"
    by (simp_all add: cell_tier_def js_lt_def)
  show ?thesis
    by (intro conjI a b t)
qed

text \<open>A source ratio of 1 with minification off and on, a gzip ratio of 1, and a
  table with the source ratio 2/5.\<close>

theorem percentage_cell_tier_witness:
  "format_cell sample_builtins conf_all_off 0 2 (JsNumber (Finite 1)) =
     Inr (JsString ''0.0%'', [(Success, ''src_percent'', 0)]) \<and>
   cell_tier sample_builtins conf_production 2 (JsNumber (Finite 1)) = Danger \<and>
   cell_tier sample_builtins conf_all_off 5 (JsNumber (Finite 1)) = Danger \<and>
   formatCols sample_builtins conf_production 0 [[None, None, Some (JsNumber (Finite (2 / 5)))]] =
     Inr ([[None, None, Some (JsString ''60.0%'')]], [(Warning, ''src_percent'', 0)]) \<and>
   (cell_tier sample_builtins conf_production 2 (JsNumber (Finite (2 / 5))), ''src_percent'', 0) \<in>
     set [(Warning, ''src_percent'', 0 :: nat)]"
proof -
  have h2: "2 \<in> set percentCols" and h5: "5 \<in> set percentCols"
    by (simp_all add: percentCols_def)
  have c2: "trackTable_cols ! 2 = ''src_percent''" and c5: "trackTable_cols ! 5 = ''gzip_percent''"
    by (simp_all add: trackTable_cols_def)
  have f: "formatCols sample_builtins conf_production 0
      [[None, None, Some (JsNumber (Finite (2 / 5)))]] =
      Inr ([[None, None, Some (JsString ''60.0%'')]], [(Warning, ''src_percent'', 0)])"
    by code_simp
  have a: "format_cell sample_builtins conf_all_off 0 2 (JsNumber (Finite 1)) =
     Inr (JsString ''0.0%'', [(Success, ''src_percent'', 0)])"
    using percentage_cell_tier [OF h2, of sample_builtins conf_all_off 0 1, THEN conjunct1]
    by (simp add: c2 percent_text_one conf_all_off_def)
  have b: "cell_tier sample_builtins conf_production 2 (JsNumber (Finite 1)) = Danger"
    using percentage_cell_tier [OF h2, of sample_builtins conf_production 0 1,
        THEN conjunct2, THEN conjunct1]
    by (simp add: conf_production_def)
  have c: "cell_tier sample_builtins conf_all_off 5 (JsNumber (Finite 1)) = Danger"
    using percentage_cell_tier [OF h5, of sample_builtins conf_all_off 0 1,
        THEN conjunct2, THEN conjunct1]
    by (simp add: c5)
  have d: "(cell_tier sample_builtins conf_production 2 (JsNumber (Finite (2 / 5))), ''src_percent'', 0) \<in>
     set [(Warning, ''src_percent'', 0 :: nat)]"
    using percentage_cell_tier [OF h2, of sample_builtins conf_production 0 1
        "[[None, None, Some (JsNumber (Finite (2 / 5)))]]"
        "[[None, None, Some (JsString ''60.0%'')]]"
        "[(Warning, ''src_percent'', 0)]" 0 "JsNumber (Finite (2 / 5))",
        THEN conjunct2, THEN conjunct2, THEN conjunct2, THEN conjunct2] f
    by (simp add: c2)
  show ?thesis
    by (intro conjI a b c d f)
qed

subsection \<open>The totals row\<close>

text \<open>
  Claim C5, as amended. When the byte cells of the rows are finite numbers (or holes), every byte
  column of the totals row holds the sum of that column (a hole when no row has the
  cell); the four percentages are quotients of totals: uglify / src, gzip / uglify,
  brotli / uglify and reference / src, where the reference is the brotli size if brotli
  ran, else the gzip size if gzip ran, else column 3 (\<^verbatim>\<open>uglify\<close>) if minification or
  source maps ran, else the source size, and where a missing gzip, brotli or reference
  total counts as 0; with a source (or uglify) total that is absent or zero the
  quotients over it are no finite numbers; and formatting a percentage cell never
  fails.
\<close>

theorem totals_row:
  assumes "byte_cells_finite rows"
  shows "(\<forall>i \<in> set byteCols. get_idx (totalsRow B C rows) i =
       (if column_cells i rows = [] then JsUndefined else JsNumber (Finite (column_sum i rows)))) \<and>
    get_idx (totalsRow B C rows) 2 =
      js_div B (get_idx (totalsRow B C rows) 3) (get_idx (totalsRow B C rows) 1) \<and>
    get_idx (totalsRow B C rows) 5 =
      js_div B (js_or (get_idx (totalsRow B C rows) 6) (JsNumber (Finite 0)))
        (get_idx (totalsRow B C rows) 3) \<and>
    get_idx (totalsRow B C rows) 8 =
      js_div B (js_or (get_idx (totalsRow B C rows) 9) (JsNumber (Finite 0)))
        (get_idx (totalsRow B C rows) 3) \<and>
    get_idx (totalsRow B C rows) 10 =
      js_div B (js_or (get_idx (totalsRow B C rows) (refAllCol C)) (JsNumber (Finite 0)))
        (get_idx (totalsRow B C rows) 1) \<and>
    trackTable_cols ! refAllCol C =
     (if BROTLI C then ''brotli'' else if GZIP C then ''gzip''
      else if JS_UGLIFY C \<or> JS_SOURCEMAPS C then ''uglify'' else ''src'') \<and>
    (column_cells 1 rows \<noteq> [] \<and> column_cells 3 rows \<noteq> [] \<and> column_sum 1 rows \<noteq> 0 \<longrightarrow>
       get_idx (totalsRow B C rows) 2 = JsNumber (Finite (column_sum 3 rows / column_sum 1 rows))) \<and>
    (column_cells 1 rows = [] \<or> column_sum 1 rows = 0 \<longrightarrow>
       \<not> is_finite_number (get_idx (totalsRow B C rows) 2) \<and>
       \<not> is_finite_number (get_idx (totalsRow B C rows) 10)) \<and>
    (column_cells 3 rows = [] \<or> column_sum 3 rows = 0 \<longrightarrow>
       \<not> is_finite_number (get_idx (totalsRow B C rows) 5) \<and>
       \<not> is_finite_number (get_idx (totalsRow B C rows) 8)) \<and>
    (\<forall>i \<in> set percentCols. \<exists>w h. format_cell B C r i y = Inr (w, h))"
proof -
  have t1: "get_idx (totalsRow B C rows) 1 =
      (if column_cells 1 rows = [] then JsUndefined else JsNumber (Finite (column_sum 1 rows)))"
    and t3: "get_idx (totalsRow B C rows) 3 =
      (if column_cells 3 rows = [] then JsUndefined else JsNumber (Finite (column_sum 3 rows)))"
    by (rule totalsRow_byte_column [OF assms], simp add: byteCols_def)+
  note t1' = t1 [unfolded One_nat_def]
  have a: "\<forall>i \<in> set byteCols. get_idx (totalsRow B C rows) i =
       (if column_cells i rows = [] then JsUndefined else JsNumber (Finite (column_sum i rows)))"
    using totalsRow_byte_column [OF assms] by blast
  have b: "column_cells 1 rows \<noteq> [] \<and> column_cells 3 rows \<noteq> [] \<and> column_sum 1 rows \<noteq> 0 \<longrightarrow>
       get_idx (totalsRow B C rows) 2 = JsNumber (Finite (column_sum 3 rows / column_sum 1 rows))"
    by (subst totalsRow_percent) (simp add: t1' t3 js_div_def)
  have c: "column_cells 1 rows = [] \<or> column_sum 1 rows = 0 \<longrightarrow>
       \<not> is_finite_number (get_idx (totalsRow B C rows) 2) \<and>
       \<not> is_finite_number (get_idx (totalsRow B C rows) 10)"
    by (subst totalsRow_percent(1), subst totalsRow_percent(4))
       (auto simp: t1' js_div_by_zero js_div_by_undefined)
  have d: "column_cells 3 rows = [] \<or> column_sum 3 rows = 0 \<longrightarrow>
       \<not> is_finite_number (get_idx (totalsRow B C rows) 5) \<and>
       \<not> is_finite_number (get_idx (totalsRow B C rows) 8)"
    by (subst totalsRow_percent(2), subst totalsRow_percent(3))
       (auto simp: t3 js_div_by_zero js_div_by_undefined)
  have e: "\<forall>i \<in> set percentCols. \<exists>w h. format_cell B C r i y = Inr (w, h)"
    using format_percent_total by blast
  show ?thesis
    by (intro conjI a b c d e totalsRow_percent refAllCol_name)
qed

text \<open>The two files of the source-map pass: the totals are 300, 300 and 1000 bytes, no
  gzip total, and the source percentage is 300 / 300.\<close>

theorem totals_row_witness:
  "get_idx (totalsRow sample_builtins conf_sourcemaps_only (tableData_of two_files)) 1 =
     JsNumber (Finite 300) \<and>
   get_idx (totalsRow sample_builtins conf_sourcemaps_only (tableData_of two_files)) 3 =
     JsNumber (Finite 300) \<and>
   get_idx (totalsRow sample_builtins conf_sourcemaps_only (tableData_of two_files)) 12 =
     JsNumber (Finite 1000) \<and>
   get_idx (totalsRow sample_builtins conf_sourcemaps_only (tableData_of two_files)) 6 = JsUndefined \<and>
   get_idx (totalsRow sample_builtins conf_sourcemaps_only (tableData_of two_files)) 2 =
     JsNumber (Finite 1) \<and>
   trackTable_cols ! refAllCol conf_sourcemaps_only = ''uglify''"
proof -
  have h: "byte_cells_finite (tableData_of two_files)"
    by code_simp
  have c: "column_cells 1 (tableData_of two_files) \<noteq> []" "column_sum 1 (tableData_of two_files) = 300"
    "column_cells 3 (tableData_of two_files) \<noteq> []" "column_sum 3 (tableData_of two_files) = 300"
    "column_cells 12 (tableData_of two_files) \<noteq> []" "column_sum 12 (tableData_of two_files) = 1000"
    "column_cells 6 (tableData_of two_files) = []"
    by code_simp+
  have m: "1 \<in> set byteCols" "3 \<in> set byteCols" "12 \<in> set byteCols" "6 \<in> set byteCols"
    by (simp_all add: byteCols_def)
  from totals_row [OF h, of sample_builtins conf_sourcemaps_only 0 JsUndefined]
  show ?thesis
    using c m by (simp add: conf_sourcemaps_only_def js_div_def)
qed

text \<open>
  Claim C5 as stated fails in that pass, where only source maps ran: the combined
  percentage of the totals row is 300 / 300, the total of column 3 over the source
  total, and not the total of the source-map sizes over the source total, 1000 / 300.
\<close>

theorem totals_reference_is_not_map_size:
  "get_idx (totalsRow sample_builtins conf_sourcemaps_only
      (sortedTableData sample_builtins conf_sourcemaps_only two_files)) 10 = JsNumber (Finite 1) \<and>
   get_idx (totalsRow sample_builtins conf_sourcemaps_only
      (sortedTableData sample_builtins conf_sourcemaps_only two_files)) 12 = JsNumber (Finite 1000) \<and>
   get_idx (totalsRow sample_builtins conf_sourcemaps_only
      (sortedTableData sample_builtins conf_sourcemaps_only two_files)) 1 = JsNumber (Finite 300) \<and>
   js_div sample_builtins (JsNumber (Finite 1000)) (JsNumber (Finite 300)) = JsNumber (Finite (10 / 3)) \<and>
   trackTable_cols ! refAllCol conf_sourcemaps_only = ''uglify'' \<and>
   trackTable_cols ! 12 = ''map''"
  by code_simp

subsection \<open>The text of a percentage cell\<close>



subsection \<open>The canonical source key\<close>

text \<open>
  Claim C7, as amended. \<^verbatim>\<open>trackFile\<close> files every event under the key
  \<open>srcFileName (fileName d)\<close>. A file name that ends in \<^verbatim>\<open>.gz\<close>, \<^verbatim>\<open>.br\<close> or
  \<^verbatim>\<open>.map\<close> has the key obtained by taking that suffix off; a file name without such a
  suffix, and which is not one of the bare words \<^verbatim>\<open>gz\<close>, \<^verbatim>\<open>br\<close>, \<^verbatim>\<open>map\<close>, is its
  own key. So the events of an asset \<open>f\<close> (named \<open>f\<close>, \<open>f.gz\<close>, \<open>f.br\<close>, \<open>f.map\<close>)
  all resolve to the key \<open>f\<close>.
\<close>

theorem canonical_key_strips_known_suffix:
  "srcFileName (f @ ''.gz'') = f \<and> srcFileName (f @ ''.br'') = f \<and> srcFileName (f @ ''.map'') = f \<and>
   ((\<nexists>g. name = g @ ''.gz'' \<or> name = g @ ''.br'' \<or> name = g @ ''.map'') \<and>
      name \<notin> {''gz'', ''br'', ''map''} \<longrightarrow> srcFileName name = name) \<and>
   fst ` set (trackFile B d m tf) = insert (srcFileName (fileName d)) (fst ` set tf)"
proof -
  have "srcFileName (f @ ''.'' @ ''gz'') = f" "srcFileName (f @ ''.'' @ ''br'') = f"
    "srcFileName (f @ ''.'' @ ''map'') = f"
    by (rule srcFileName_strip,
        simp add: compressionExt_def gZipOptions_extension_def brotliOptions_extension_def)+
  moreover have "fst ` set (trackFile B d m tf) = insert (srcFileName (fileName d)) (fst ` set tf)"
    by (simp add: trackFile_def Let_def keys_obj_set)
  ultimately show ?thesis
    using srcFileName_keep [of name] by simp
qed

text \<open>The events of \<^verbatim>\<open>app.js\<close> in its four stages share the key \<^verbatim>\<open>app.js\<close>.\<close>

theorem canonical_key_strips_known_suffix_witness:
  "srcFileName ''app.js.gz'' = ''app.js'' \<and> srcFileName ''app.js.br'' = ''app.js'' \<and>
   srcFileName ''app.js.map'' = ''app.js'' \<and> srcFileName ''app.js'' = ''app.js'' \<and>
   fst ` set (trackFile sample_builtins app_js_gz [] []) = {''app.js''}"
  using canonical_key_strips_known_suffix
    [of "''app.js''" "''app.js''" sample_builtins app_js_gz "[]" "[]"] no_suffix_app_js
  by (simp add: app_js_gz_def)

text \<open>
  Claim C7 as stated fails for a file named \<^verbatim>\<open>gz\<close>: the name has no suffix
  \<^verbatim>\<open>.gz\<close>, \<^verbatim>\<open>.br\<close> or \<^verbatim>\<open>.map\<close>, yet its key is the empty string and not the name
  (\<^verbatim>\<open>'gz'.split('.')\<close> is \<^verbatim>\<open>['gz']\<close>, whose only part is taken for the extension).
\<close>

theorem canonical_key_of_bare_extension:
  "srcFileName ''gz'' = '''' \<and> ''gz'' \<noteq> '''' \<and>
   \<not> (\<exists>g. ''gz'' = g @ ''.gz'' \<or> ''gz'' = g @ ''.br'' \<or> ''gz'' = g @ ''.map'')"
proof -
  have "\<not> (\<exists>g. ''gz'' = g @ ''.gz'' \<or> ''gz'' = g @ ''.br'' \<or> ''gz'' = g @ ''.map'')"
    by (auto dest: arg_cong [where f = length])
  moreover have "srcFileName ''gz'' = ''''"
    by (simp add: srcFileName_def compressionExt_def gZipOptions_extension_def)
  ultimately show ?thesis by simp
qed

subsection \<open>Rendering twice\<close>

text \<open>
  Claim C8, as amended. A render prepends the key to every record of the tracker it
  reads, so it changes a tracker that is not empty, and a render that completes resets
  the variable \<^verbatim>\<open>trackedFiles\<close> to the empty tracker. The next render, without new
  events, is therefore the render of the empty tracker: it completes, and it leaves its
  input and the variable empty, so that every further render gives the same report.
\<close>

theorem rerender_after_reset:
  "input_after (printJsSummary B C tf) = unshift_rows tf \<and>
   (tf \<noteq> [] \<longrightarrow> input_after (printJsSummary B C tf) \<noteq> tf) \<and>
   (\<forall>rep. outcome (printJsSummary B C tf) = Inr rep \<longrightarrow>
      trackedFiles_after (printJsSummary B C tf) = [] \<and>
      printJsSummary B C (trackedFiles_after (printJsSummary B C tf)) = printJsSummary B C []) \<and>
   (\<exists>rep. outcome (printJsSummary B C []) = Inr rep) \<and>
   input_after (printJsSummary B C []) = [] \<and>
   trackedFiles_after (printJsSummary B C []) = []"
proof -
  have "\<forall>rep. outcome (printJsSummary B C tf) = Inr rep \<longrightarrow>
      trackedFiles_after (printJsSummary B C tf) = [] \<and>
      printJsSummary B C (trackedFiles_after (printJsSummary B C tf)) = printJsSummary B C []"
    using trackedFiles_after_ok [of B C tf] by simp
  then show ?thesis
    by (simp add: input_after_eq unshift_rows_changes)
       (simp add: printJsSummary_Nil unshift_rows_def)
qed

text \<open>The tracker with \<^verbatim>\<open>app.js\<close>: the render completes, changes the record and
  resets the tracker, and the next render is the render of the empty tracker.\<close>

theorem rerender_after_reset_witness:
  "input_after (printJsSummary sample_builtins conf_production one_file) = unshift_rows one_file \<and>
   input_after (printJsSummary sample_builtins conf_production one_file) \<noteq> one_file \<and>
   trackedFiles_after (printJsSummary sample_builtins conf_production one_file) = [] \<and>
   printJsSummary sample_builtins conf_production
     (trackedFiles_after (printJsSummary sample_builtins conf_production one_file)) =
   printJsSummary sample_builtins conf_production []"
proof -
  have ne: "one_file \<noteq> []" by code_simp
  show ?thesis
    using rerender_after_reset [of sample_builtins conf_production one_file] ne one_file_report
    by blast
qed

text \<open>
  Claim C8 as stated fails on that tracker: the render changes the record, the second
  render (of the reset tracker) gives another report than the first, and rendering the
  changed tracker object again ends in the exception of \<^verbatim>\<open>prettyBytes\<close>, called on
  the file name that now stands in column 1.
\<close>

theorem render_twice_differs:
  "input_after (printJsSummary sample_builtins conf_production one_file) \<noteq> one_file \<and>
   outcome (printJsSummary sample_builtins conf_production
      (trackedFiles_after (printJsSummary sample_builtins conf_production one_file))) \<noteq>
     outcome (printJsSummary sample_builtins conf_production one_file) \<and>
   outcome (printJsSummary sample_builtins conf_production
      (input_after (printJsSummary sample_builtins conf_production one_file))) = Inl TypeError"
  by code_simp

subsection \<open>A compression event that arrives first\<close>



subsection \<open>An empty tracker\<close>

text \<open>
  Claim C10. With no tracked file the renderer returns normally, whatever the flags and
  whatever \<^verbatim>\<open>prettyBytes\<close> would do (it is never called). The table holds the header
  and the totals row only, both cut to the visible columns; in the totals row the byte
  columns 1, 3, 6 and 9 are holes and column 12 is absent, and the four percentage
  cells are empty strings.
\<close>

theorem empty_tracker_report:
  "printJsSummary B C [] =
     \<lparr>outcome = Inr \<lparr>table_rows =
         [removeColumns C tableHeader,
          removeColumns C [None, None, Some (JsString ''''), None, None, Some (JsString ''''),
            None, None, Some (JsString ''''), None, Some (JsString '''')]],
        highLightRow = [(Danger, ''src_percent'', 0), (Danger, ''gzip_percent'', 0),
          (Danger, ''brotli_percent'', 0), (Danger, ''all_percent'', 0)]\<rparr>,
      input_after = [], trackedFiles_after = []\<rparr>"
  by (rule printJsSummary_Nil)

text \<open>With every flag off only the columns \<^verbatim>\<open>file\<close> and \<^verbatim>\<open>src\<close> are left.\<close>

theorem empty_tracker_report_witness:
  "printJsSummary sample_builtins conf_all_off [] =
     \<lparr>outcome = Inr \<lparr>table_rows = [[Some (JsString ''file''), Some (JsString ''src'')], [None, None]],
        highLightRow = [(Danger, ''src_percent'', 0), (Danger, ''gzip_percent'', 0),
          (Danger, ''brotli_percent'', 0), (Danger, ''all_percent'', 0)]\<rparr>,
      input_after = [], trackedFiles_after = []\<rparr>"
  using empty_tracker_report [of sample_builtins conf_all_off]
  by (simp add: removeColumns_header)
     (simp add: removeColumns_def removedColumns_def removeColumn_def conf_all_off_def)

end
